theory Spec2Isabelle
  imports Complex_Main "HOL-Library.Word"
begin

section \<open>Carla engine: data model\<close>

text \<open>
  Shallow embedding of \<^verbatim>\<open>source/backend/engine/carla_engine.cpp\<close>.
  Undefined behaviour of the C++ (an array read past its end, the use of a pointer after
  \<^verbatim>\<open>delete\<close>) is a value of type \<open>error\<close>: a function that can reach it returns
  \<open>error + 'a\<close>.
\<close>

datatype error = OutOfBounds | NullPointer | DanglingPointer | LoopCounterWrap

datatype ProcessMode =
    PROCESS_MODE_SINGLE_CLIENT
  | PROCESS_MODE_MULTIPLE_CLIENTS
  | PROCESS_MODE_CONTINUOUS_RACK
  | PROCESS_MODE_PATCHBAY
  | PROCESS_MODE_BRIDGE

subsection \<open>Engine events\<close>

text \<open>
  Modelled from the spec: the types \<^verbatim>\<open>EngineEvent\<close>, \<^verbatim>\<open>EngineControlEvent\<close> and
  \<^verbatim>\<open>EngineMidiEvent\<close> are declared in \<^verbatim>\<open>carla_engine.hpp\<close>, which is not part of the
  sources at hand. The fields are the ones \<^verbatim>\<open>carla_engine.cpp\<close> reads and writes.
  \<^verbatim>\<open>double\<close> values are only stored and read back, never computed with; they are \<open>real\<close>.
  The C++ keeps \<^verbatim>\<open>ctrl\<close> and \<^verbatim>\<open>midi\<close> in one union; here they are two fields.
\<close>

datatype EngineEventType =
    kEngineEventTypeNull
  | kEngineEventTypeControl
  | kEngineEventTypeMidi

datatype EngineControlEventType =
    kEngineControlEventTypeNull
  | kEngineControlEventTypeParameter
  | kEngineControlEventTypeMidiBank
  | kEngineControlEventTypeMidiProgram

record EngineControlEvent =
  ctrl_type :: EngineControlEventType
  ctrl_param :: "16 word"
  ctrl_value :: real

record EngineMidiEvent =
  midi_port :: "8 word"
  midi_data :: "8 word list"
  midi_size :: "8 word"

record EngineEvent =
  ev_type :: EngineEventType
  ev_time :: "32 word"
  ev_channel :: "8 word"
  ctrl :: EngineControlEvent
  midi :: EngineMidiEvent

text \<open>
  Modelled from the spec: \<^verbatim>\<open>static const EngineEvent kFallbackEngineEvent;\<close> is a
  default-constructed event; the constructor is in the missing header. The spec calls it
  the process-wide \<^verbatim>\<open>Null\<close> sentinel. A zeroed event (\<^verbatim>\<open>carla_zeroMem\<close>) is the same value.
\<close>

definition kFallbackEngineEvent :: EngineEvent where
  "kFallbackEngineEvent =
     \<lparr> ev_type = kEngineEventTypeNull, ev_time = 0, ev_channel = 0,
       ctrl = \<lparr> ctrl_type = kEngineControlEventTypeNull, ctrl_param = 0, ctrl_value = 0 \<rparr>,
       midi = \<lparr> midi_port = 0, midi_data = [0, 0, 0], midi_size = 0 \<rparr> \<rparr>"

text \<open>
  Modelled from the spec: \<^verbatim>\<open>MAX_MIDI_CHANNELS\<close> is defined in \<^verbatim>\<open>carla_midi.h\<close> (missing);
  the spec requires \<^verbatim>\<open>channel < 16\<close>.
\<close>

definition MAX_MIDI_CHANNELS :: "8 word" where
  "MAX_MIDI_CHANNELS = 16"

subsection \<open>Event ports\<close>

text \<open>
  \<^verbatim>\<open>fBuffer\<close> is a pointer: \<open>None\<close> is \<^verbatim>\<open>nullptr\<close>, \<open>Some events\<close> is the array it points
  to. \<^verbatim>\<open>RACK_EVENT_COUNT\<close> and \<^verbatim>\<open>PATCHBAY_EVENT_COUNT\<close> are macros of a missing header and
  are parameters of the constructor.
\<close>

record CarlaEngineEventPort =
  kIsInput :: bool
  kProcessMode :: ProcessMode
  kMaxEventCount :: nat
  fBuffer :: "EngineEvent list option"

definition newCarlaEngineEventPort ::
  "nat \<Rightarrow> nat \<Rightarrow> bool \<Rightarrow> ProcessMode \<Rightarrow> CarlaEngineEventPort" where
  "newCarlaEngineEventPort RACK_EVENT_COUNT PATCHBAY_EVENT_COUNT isInput processMode =
     \<lparr> kIsInput = isInput,
       kProcessMode = processMode,
       kMaxEventCount = (if processMode = PROCESS_MODE_CONTINUOUS_RACK
                         then RACK_EVENT_COUNT else PATCHBAY_EVENT_COUNT),
       fBuffer = (if processMode = PROCESS_MODE_PATCHBAY
                  then Some (replicate PATCHBAY_EVENT_COUNT kFallbackEngineEvent)
                  else None) \<rparr>"

text \<open>
  \<^verbatim>\<open>initBuffer(engine)\<close>: \<open>engine\<close> is \<open>None\<close> for \<^verbatim>\<open>nullptr\<close>, and otherwise the
  engine's virtual method \<^verbatim>\<open>getRackEventBuffer\<close>, from the direction to the buffer it
  returns. \<^verbatim>\<open>carla_zeroMem\<close> clears \<^verbatim>\<open>PATCHBAY_EVENT_COUNT\<close> entries of the array.
\<close>

definition initBuffer ::
  "nat \<Rightarrow> (bool \<Rightarrow> EngineEvent list option) option \<Rightarrow> CarlaEngineEventPort
     \<Rightarrow> error + CarlaEngineEventPort" where
  "initBuffer PATCHBAY_EVENT_COUNT engine p =
     (case engine of
        None \<Rightarrow> Inr p
      | Some getRackEventBuffer \<Rightarrow>
          if kProcessMode p = PROCESS_MODE_CONTINUOUS_RACK
          then Inr (p\<lparr>fBuffer := getRackEventBuffer (kIsInput p)\<rparr>)
          else if kProcessMode p = PROCESS_MODE_PATCHBAY \<and> \<not> kIsInput p
          then (case fBuffer p of
                  None \<Rightarrow> Inl NullPointer
                | Some events \<Rightarrow>
                    if PATCHBAY_EVENT_COUNT \<le> length events
                    then Inr (p\<lparr>fBuffer := Some (replicate PATCHBAY_EVENT_COUNT kFallbackEngineEvent
                                                  @ drop PATCHBAY_EVENT_COUNT events)\<rparr>)
                    else Inl OutOfBounds)
          else Inr p)"

text \<open>
  The loop of \<^verbatim>\<open>getEventCount\<close>:
  \<^verbatim>\<open>for (uint32_t i=0; i < kMaxEventCount; i++, count++) if (events[i].type == Null) break;\<close>
\<close>

function getEventCount_loop :: "EngineEvent list \<Rightarrow> nat \<Rightarrow> nat \<Rightarrow> nat \<Rightarrow> error + nat" where
  "getEventCount_loop events maxCount i count =
     (if i < maxCount
      then (if i < length events
            then (if ev_type (events ! i) = kEngineEventTypeNull
                  then Inr count
                  else getEventCount_loop events maxCount (Suc i) (Suc count))
            else Inl OutOfBounds)
      else Inr count)"
  by pat_completeness auto
termination
  by (relation "measure (\<lambda>(events, maxCount, i, count). maxCount - i)") auto

definition getEventCount :: "CarlaEngineEventPort \<Rightarrow> error + nat" where
  "getEventCount p =
     (if \<not> kIsInput p then Inr 0
      else case fBuffer p of
        None \<Rightarrow> Inr 0
      | Some events \<Rightarrow>
          if kProcessMode p = PROCESS_MODE_CONTINUOUS_RACK \<or> kProcessMode p = PROCESS_MODE_PATCHBAY
          then getEventCount_loop events (kMaxEventCount p) 0 0
          else Inr 0)"

definition getEvent :: "CarlaEngineEventPort \<Rightarrow> nat \<Rightarrow> error + EngineEvent" where
  "getEvent p index =
     (if \<not> kIsInput p then Inr kFallbackEngineEvent
      else case fBuffer p of
        None \<Rightarrow> Inr kFallbackEngineEvent
      | Some events \<Rightarrow>
          if index \<ge> kMaxEventCount p then Inr kFallbackEngineEvent
          else if kProcessMode p = PROCESS_MODE_CONTINUOUS_RACK \<or> kProcessMode p = PROCESS_MODE_PATCHBAY
          then (if index < length events then Inr (events ! index) else Inl OutOfBounds)
          else Inr kFallbackEngineEvent)"

text \<open>
  The loop of \<^verbatim>\<open>writeControlEvent\<close>: the first entry of type \<^verbatim>\<open>Null\<close> is filled; when
  there is none the buffer is returned as it was (the C++ prints "buffer full").
\<close>

function writeControlEvent_loop ::
  "EngineEvent list \<Rightarrow> nat \<Rightarrow> nat \<Rightarrow> 32 word \<Rightarrow> 8 word \<Rightarrow> EngineControlEventType \<Rightarrow> 16 word \<Rightarrow> real
     \<Rightarrow> error + EngineEvent list" where
  "writeControlEvent_loop events maxCount i time channel type param val =
     (if i < maxCount
      then (if i < length events
            then (if ev_type (events ! i) \<noteq> kEngineEventTypeNull
                  then writeControlEvent_loop events maxCount (Suc i) time channel type param val
                  else Inr (events[i := (events ! i)
                              \<lparr> ev_type := kEngineEventTypeControl,
                                ev_time := time,
                                ev_channel := channel,
                                ctrl := \<lparr> ctrl_type = type, ctrl_param = param, ctrl_value = val \<rparr> \<rparr>]))
            else Inl OutOfBounds)
      else Inr events)"
  by pat_completeness auto
termination
  by (relation "measure (\<lambda>(events, maxCount, i, time, channel, type, param, val). maxCount - i)") auto

text \<open>
  \<^verbatim>\<open>writeControlEvent\<close>. The five \<^verbatim>\<open>CARLA_ASSERT\<close> lines and the one on
  \<^verbatim>\<open>MIDI_IS_CONTROL_BANK_SELECT(param)\<close> only log; the \<^verbatim>\<open>if (...) return;\<close> lines that follow
  them are the branches below. There is no such line for \<^verbatim>\<open>value\<close> or for \<^verbatim>\<open>param\<close>.
\<close>

definition writeControlEvent ::
  "CarlaEngineEventPort \<Rightarrow> 32 word \<Rightarrow> 8 word \<Rightarrow> EngineControlEventType \<Rightarrow> 16 word \<Rightarrow> real
     \<Rightarrow> error + CarlaEngineEventPort" where
  "writeControlEvent p time channel type param val =
     (if kIsInput p then Inr p
      else case fBuffer p of
        None \<Rightarrow> Inr p
      | Some events \<Rightarrow>
          if type = kEngineControlEventTypeNull then Inr p
          else if channel \<ge> MAX_MIDI_CHANNELS then Inr p
          else if kProcessMode p = PROCESS_MODE_CONTINUOUS_RACK \<or> kProcessMode p = PROCESS_MODE_PATCHBAY
          then (case writeControlEvent_loop events (kMaxEventCount p) 0 time channel type param val of
                  Inl e \<Rightarrow> Inl e
                | Inr events' \<Rightarrow> Inr (p\<lparr>fBuffer := Some events'\<rparr>))
          else Inr p)"

text \<open>
  A port as the constructor and \<^verbatim>\<open>initBuffer\<close> leave it: a buffer is present only in rack
  and patchbay mode, and holds \<^verbatim>\<open>kMaxEventCount\<close> entries.
\<close>

definition port_wf :: "CarlaEngineEventPort \<Rightarrow> bool" where
  "port_wf p =
     (case fBuffer p of
        None \<Rightarrow> True
      | Some events \<Rightarrow>
          length events = kMaxEventCount p \<and>
          (kProcessMode p = PROCESS_MODE_CONTINUOUS_RACK \<or> kProcessMode p = PROCESS_MODE_PATCHBAY))"

text \<open>The number of entries before the first \<^verbatim>\<open>Null\<close> one.\<close>

definition leading_events :: "EngineEvent list \<Rightarrow> nat" where
  "leading_events events = length (takeWhile (\<lambda>e. ev_type e \<noteq> kEngineEventTypeNull) events)"

section \<open>The engine\<close>

subsection \<open>Plugins and the plugin table\<close>

text \<open>
  Modelled from the spec: \<^verbatim>\<open>CarlaPlugin\<close> is a class of another file. The engine uses
  \<^verbatim>\<open>id()\<close>, \<^verbatim>\<open>setId()\<close>, \<^verbatim>\<open>name()\<close> (a \<^verbatim>\<open>const char*\<close>, \<open>None\<close> when null) and
  \<^verbatim>\<open>enabled()\<close>. Plugins are objects on the heap: the table holds their addresses, and
  \<^verbatim>\<open>delete\<close> removes an address from the heap.
\<close>

type_synonym addr = nat

record CarlaPlugin =
  plugin_id :: nat
  plugin_name :: "string option"
  plugin_enabled :: bool

text \<open>
  Modelled from the spec: \<^verbatim>\<open>EnginePluginData\<close> (in \<^verbatim>\<open>carla_engine_internal.hpp\<close>, missing)
  is a plugin pointer with two input and two output peaks; a fresh entry holds no plugin.
\<close>

record EnginePluginData =
  plugin :: "addr option"
  insPeak :: "real \<times> real"
  outsPeak :: "real \<times> real"

definition emptyPluginData :: EnginePluginData where
  "emptyPluginData = \<lparr> plugin = None, insPeak = (0, 0), outsPeak = (0, 0) \<rparr>"

datatype EnginePostAction =
    EnginePostActionNull
  | EnginePostActionIdle
  | EnginePostActionRemovePlugin

text \<open>
  Modelled from the spec: the enumerations below are declared in missing headers. Their
  values are the ones \<^verbatim>\<open>carla_engine.cpp\<close> names; \<open>kEngineTypeRtAudio\<close> stands for the
  engines that are not JACK, \<open>BINARY_OTHER\<close> for the binary types that reach the
  \<^verbatim>\<open>default:\<close> case of \<^verbatim>\<open>addPlugin\<close>.
\<close>

datatype EngineType =
    kEngineTypeNull
  | kEngineTypeJack
  | kEngineTypeRtAudio

datatype BinaryType =
    BINARY_NONE
  | BINARY_POSIX32
  | BINARY_POSIX64
  | BINARY_WIN32
  | BINARY_WIN64
  | BINARY_OTHER

datatype PluginType =
    PLUGIN_NONE
  | PLUGIN_INTERNAL
  | PLUGIN_LADSPA
  | PLUGIN_DSSI
  | PLUGIN_LV2
  | PLUGIN_VST
  | PLUGIN_GIG
  | PLUGIN_SF2
  | PLUGIN_SFZ

datatype OptionsType =
    OPTION_PROCESS_NAME
  | OPTION_PROCESS_MODE
  | OPTION_MAX_PARAMETERS
  | OPTION_PREFERRED_BUFFER_SIZE
  | OPTION_PREFERRED_SAMPLE_RATE
  | OPTION_FORCE_STEREO
  | OPTION_USE_DSSI_VST_CHUNKS
  | OPTION_PREFER_PLUGIN_BRIDGES
  | OPTION_PREFER_UI_BRIDGES
  | OPTION_OSC_UI_TIMEOUT
  | OPTION_PATH_BRIDGE_NATIVE
  | OPTION_PATH_BRIDGE_POSIX32
  | OPTION_PATH_BRIDGE_POSIX64
  | OPTION_PATH_BRIDGE_WIN32
  | OPTION_PATH_BRIDGE_WIN64
  | OPTION_PATH_BRIDGE_LV2_GTK2
  | OPTION_PATH_BRIDGE_LV2_GTK3
  | OPTION_PATH_BRIDGE_LV2_QT4
  | OPTION_PATH_BRIDGE_LV2_QT5
  | OPTION_PATH_BRIDGE_LV2_COCOA
  | OPTION_PATH_BRIDGE_LV2_WINDOWS
  | OPTION_PATH_BRIDGE_LV2_X11
  | OPTION_PATH_BRIDGE_VST_COCOA
  | OPTION_PATH_BRIDGE_VST_HWND
  | OPTION_PATH_BRIDGE_VST_X11

record EngineOptions =
  processMode :: ProcessMode
  maxParameters :: nat
  preferredBufferSize :: nat
  preferredSampleRate :: nat
  forceStereo :: bool
  useDssiVstChunks :: bool
  preferPluginBridges :: bool
  preferUiBridges :: bool
  oscUiTimeout :: nat
  bridge_native :: string
  bridge_posix32 :: string
  bridge_posix64 :: string
  bridge_win32 :: string
  bridge_win64 :: string
  bridge_lv2gtk2 :: string
  bridge_lv2gtk3 :: string
  bridge_lv2qt4 :: string
  bridge_lv2qt5 :: string
  bridge_lv2cocoa :: string
  bridge_lv2win :: string
  bridge_lv2x11 :: string
  bridge_vstcocoa :: string
  bridge_vsthwnd :: string
  bridge_vstx11 :: string

text \<open>
  The engine with its protected data. \<^verbatim>\<open>isRunning()\<close> and \<^verbatim>\<open>type()\<close> are virtual methods
  of the driver; here they are the fields \<open>running\<close> and \<open>engineType\<close>. \<open>plugins\<close> is
  the pointer \<^verbatim>\<open>kData->plugins\<close> (\<open>None\<close> is \<^verbatim>\<open>nullptr\<close>); \<open>heap\<close> maps the address of
  each live plugin to the object. \<^verbatim>\<open>unsigned int\<close> values are \<open>nat\<close>, reduced modulo
  \<open>2 ^ 32\<close> where the C++ can wrap. The OSC link, the housekeeping thread, the mutex and the
  callback are not part of the state.
\<close>

record CarlaEngine =
  fOptions :: EngineOptions
  running :: bool
  engineType :: EngineType
  plugins :: "EnginePluginData list option"
  curPluginCount :: nat
  maxPluginNumber :: nat
  lastError :: string
  aboutToClose :: bool
  nextAction_opcode :: EnginePostAction
  nextAction_pluginId :: nat
  heap :: "addr \<Rightarrow> CarlaPlugin option"

text \<open>
  \<^verbatim>\<open>CarlaEngine::init\<close>, as far as the plugin table goes. The three limits are macros of a
  missing header.
\<close>

definition init :: "nat \<Rightarrow> nat \<Rightarrow> nat \<Rightarrow> CarlaEngine \<Rightarrow> CarlaEngine" where
  "init MAX_RACK_PLUGINS MAX_PATCHBAY_PLUGINS MAX_DEFAULT_PLUGINS e =
     (let m = (case processMode (fOptions e) of
                 PROCESS_MODE_CONTINUOUS_RACK \<Rightarrow> MAX_RACK_PLUGINS
               | PROCESS_MODE_PATCHBAY \<Rightarrow> MAX_PATCHBAY_PLUGINS
               | PROCESS_MODE_BRIDGE \<Rightarrow> 1
               | _ \<Rightarrow> MAX_DEFAULT_PLUGINS)
      in e\<lparr> aboutToClose := False,
            curPluginCount := 0,
            maxPluginNumber := m,
            plugins := Some (replicate m emptyPluginData) \<rparr>)"

definition setLastError :: "string \<Rightarrow> CarlaEngine \<Rightarrow> CarlaEngine" where
  "setLastError err e = e\<lparr>lastError := err\<rparr>"

subsection \<open>Options\<close>

text \<open>
  Modelled from the spec: the numeric values of the \<^verbatim>\<open>ProcessMode\<close> enumerators (declared
  in a missing header) follow the order in which the spec lists them.
\<close>

fun int_of_ProcessMode :: "ProcessMode \<Rightarrow> int" where
  "int_of_ProcessMode PROCESS_MODE_SINGLE_CLIENT = 0"
| "int_of_ProcessMode PROCESS_MODE_MULTIPLE_CLIENTS = 1"
| "int_of_ProcessMode PROCESS_MODE_CONTINUOUS_RACK = 2"
| "int_of_ProcessMode PROCESS_MODE_PATCHBAY = 3"
| "int_of_ProcessMode PROCESS_MODE_BRIDGE = 4"

text \<open>\<^verbatim>\<open>static_cast<ProcessMode>(value)\<close>, used only on values between 0 and 3.\<close>

definition ProcessMode_of_int :: "int \<Rightarrow> ProcessMode" where
  "ProcessMode_of_int v =
     (if v = 0 then PROCESS_MODE_SINGLE_CLIENT
      else if v = 1 then PROCESS_MODE_MULTIPLE_CLIENTS
      else if v = 2 then PROCESS_MODE_CONTINUOUS_RACK
      else if v = 3 then PROCESS_MODE_PATCHBAY
      else PROCESS_MODE_BRIDGE)"

text \<open>\<^verbatim>\<open>static_cast<uint>(value)\<close> of a 32-bit \<^verbatim>\<open>int\<close>.\<close>

definition uint_of_int :: "int \<Rightarrow> nat" where
  "uint_of_int v = nat (v mod 2 ^ 32)"

text \<open>
  \<^verbatim>\<open>CarlaEngine::setOption\<close> (a build with DSSI, LV2 and VST support).
  \<^verbatim>\<open>CARLA_ENGINE_SET_OPTION_RUNNING_CHECK\<close> returns when the engine is running; the
  messages go to the log only. \<^verbatim>\<open>carla_setprocname\<close> changes nothing in the engine.
\<close>

definition setOption :: "OptionsType \<Rightarrow> int \<Rightarrow> string \<Rightarrow> CarlaEngine \<Rightarrow> CarlaEngine" where
  "setOption option v valueStr e =
     (let opts = fOptions e in
      case option of
        OPTION_PROCESS_NAME \<Rightarrow> e
      | OPTION_PROCESS_MODE \<Rightarrow>
          if running e then e
          else if v < int_of_ProcessMode PROCESS_MODE_SINGLE_CLIENT
                  \<or> v > int_of_ProcessMode PROCESS_MODE_PATCHBAY then e
          else e\<lparr>fOptions := opts\<lparr>processMode := ProcessMode_of_int v\<rparr>\<rparr>
      | OPTION_MAX_PARAMETERS \<Rightarrow>
          if running e then e
          else if v < 0 then e
          else e\<lparr>fOptions := opts\<lparr>maxParameters := uint_of_int v\<rparr>\<rparr>
      | OPTION_PREFERRED_BUFFER_SIZE \<Rightarrow>
          if running e then e
          else e\<lparr>fOptions := opts\<lparr>preferredBufferSize := uint_of_int v\<rparr>\<rparr>
      | OPTION_PREFERRED_SAMPLE_RATE \<Rightarrow>
          if running e then e
          else e\<lparr>fOptions := opts\<lparr>preferredSampleRate := uint_of_int v\<rparr>\<rparr>
      | OPTION_FORCE_STEREO \<Rightarrow>
          if running e then e
          else e\<lparr>fOptions := opts\<lparr>forceStereo := (v \<noteq> 0)\<rparr>\<rparr>
      | OPTION_USE_DSSI_VST_CHUNKS \<Rightarrow>
          if running e then e
          else e\<lparr>fOptions := opts\<lparr>useDssiVstChunks := (v \<noteq> 0)\<rparr>\<rparr>
      | OPTION_PREFER_PLUGIN_BRIDGES \<Rightarrow>
          if running e then e
          else e\<lparr>fOptions := opts\<lparr>preferPluginBridges := (v \<noteq> 0)\<rparr>\<rparr>
      | OPTION_PREFER_UI_BRIDGES \<Rightarrow>
          if running e then e
          else e\<lparr>fOptions := opts\<lparr>preferUiBridges := (v \<noteq> 0)\<rparr>\<rparr>
      | OPTION_OSC_UI_TIMEOUT \<Rightarrow>
          if running e then e
          else e\<lparr>fOptions := opts\<lparr>oscUiTimeout := uint_of_int v\<rparr>\<rparr>
      | OPTION_PATH_BRIDGE_NATIVE \<Rightarrow> e\<lparr>fOptions := opts\<lparr>bridge_native := valueStr\<rparr>\<rparr>
      | OPTION_PATH_BRIDGE_POSIX32 \<Rightarrow> e\<lparr>fOptions := opts\<lparr>bridge_posix32 := valueStr\<rparr>\<rparr>
      | OPTION_PATH_BRIDGE_POSIX64 \<Rightarrow> e\<lparr>fOptions := opts\<lparr>bridge_posix64 := valueStr\<rparr>\<rparr>
      | OPTION_PATH_BRIDGE_WIN32 \<Rightarrow> e\<lparr>fOptions := opts\<lparr>bridge_win32 := valueStr\<rparr>\<rparr>
      | OPTION_PATH_BRIDGE_WIN64 \<Rightarrow> e\<lparr>fOptions := opts\<lparr>bridge_win64 := valueStr\<rparr>\<rparr>
      | OPTION_PATH_BRIDGE_LV2_GTK2 \<Rightarrow> e\<lparr>fOptions := opts\<lparr>bridge_lv2gtk2 := valueStr\<rparr>\<rparr>
      | OPTION_PATH_BRIDGE_LV2_GTK3 \<Rightarrow> e\<lparr>fOptions := opts\<lparr>bridge_lv2gtk3 := valueStr\<rparr>\<rparr>
      | OPTION_PATH_BRIDGE_LV2_QT4 \<Rightarrow> e\<lparr>fOptions := opts\<lparr>bridge_lv2qt4 := valueStr\<rparr>\<rparr>
      | OPTION_PATH_BRIDGE_LV2_QT5 \<Rightarrow> e\<lparr>fOptions := opts\<lparr>bridge_lv2qt5 := valueStr\<rparr>\<rparr>
      | OPTION_PATH_BRIDGE_LV2_COCOA \<Rightarrow> e\<lparr>fOptions := opts\<lparr>bridge_lv2cocoa := valueStr\<rparr>\<rparr>
      | OPTION_PATH_BRIDGE_LV2_WINDOWS \<Rightarrow> e\<lparr>fOptions := opts\<lparr>bridge_lv2win := valueStr\<rparr>\<rparr>
      | OPTION_PATH_BRIDGE_LV2_X11 \<Rightarrow> e\<lparr>fOptions := opts\<lparr>bridge_lv2x11 := valueStr\<rparr>\<rparr>
      | OPTION_PATH_BRIDGE_VST_COCOA \<Rightarrow> e\<lparr>fOptions := opts\<lparr>bridge_vstcocoa := valueStr\<rparr>\<rparr>
      | OPTION_PATH_BRIDGE_VST_HWND \<Rightarrow> e\<lparr>fOptions := opts\<lparr>bridge_vsthwnd := valueStr\<rparr>\<rparr>
      | OPTION_PATH_BRIDGE_VST_X11 \<Rightarrow> e\<lparr>fOptions := opts\<lparr>bridge_vstx11 := valueStr\<rparr>\<rparr>)"

subsection \<open>Adding a plugin\<close>

text \<open>
  The build: \<^verbatim>\<open>Q_OS_WIN\<close> is set on Windows, and \<^verbatim>\<open>BINARY_NATIVE\<close> is the binary type of
  the platform (a macro of a missing header). The engine is the host build
  (\<^verbatim>\<open>BUILD_BRIDGE\<close> not defined).
\<close>

record BuildConfig =
  Q_OS_WIN :: bool
  BINARY_NATIVE :: BinaryType

text \<open>The bridge binary \<^verbatim>\<open>addPlugin\<close> selects for a binary type; \<open>None\<close> is \<^verbatim>\<open>nullptr\<close>.\<close>

definition bridgeBinaryFor :: "BuildConfig \<Rightarrow> EngineOptions \<Rightarrow> BinaryType \<Rightarrow> string option" where
  "bridgeBinaryFor cfg opts btype =
     (let bridgeBinary =
            (case btype of
               BINARY_POSIX32 \<Rightarrow> if bridge_posix32 opts \<noteq> [] then Some (bridge_posix32 opts) else None
             | BINARY_POSIX64 \<Rightarrow> if bridge_posix64 opts \<noteq> [] then Some (bridge_posix64 opts) else None
             | BINARY_WIN32 \<Rightarrow> if bridge_win32 opts \<noteq> [] then Some (bridge_win32 opts) else None
             | BINARY_WIN64 \<Rightarrow> if bridge_win64 opts \<noteq> [] then Some (bridge_win64 opts) else None
             | _ \<Rightarrow> None)
      in if \<not> Q_OS_WIN cfg \<and> btype = BINARY_NATIVE cfg \<and> bridge_native opts \<noteq> []
         then Some (bridge_native opts)
         else bridgeBinary)"

text \<open>
  The plugin constructors (\<^verbatim>\<open>CarlaPlugin::newNative\<close>, \<^verbatim>\<open>newLADSPA\<close>, ...) are in other
  files: \<open>newPlugin ptype id\<close> is the object the constructor for \<open>ptype\<close> returns when
  given the initializer with this id, with its address, or \<open>None\<close> for \<^verbatim>\<open>nullptr\<close>.

  \<^verbatim>\<open>addPlugin\<close> returns \<^verbatim>\<open>bool\<close>. Its two \<^verbatim>\<open>return -1;\<close> statements convert the
  non-zero value to \<^verbatim>\<open>true\<close>.
\<close>

definition addPlugin ::
  "BuildConfig \<Rightarrow> (PluginType \<Rightarrow> nat \<Rightarrow> (addr \<times> CarlaPlugin) option) \<Rightarrow> BinaryType \<Rightarrow> PluginType
     \<Rightarrow> CarlaEngine \<Rightarrow> error + (bool \<times> CarlaEngine)" where
  "addPlugin cfg newPlugin btype ptype e =
     (if curPluginCount e = maxPluginNumber e
      then Inr (False, setLastError ''Maximum number of plugins reached'' e)
      else
        let pid = curPluginCount e;
            bridgeBinary = bridgeBinaryFor cfg (fOptions e) btype
        in
        if preferPluginBridges (fOptions e) \<and> bridgeBinary \<noteq> None
        then
          (if processMode (fOptions e) \<noteq> PROCESS_MODE_MULTIPLE_CLIENTS
           then Inr (True, setLastError ''Can only use bridged plugins in JACK Multi-Client mode'' e)
           else if engineType e \<noteq> kEngineTypeJack
           then Inr (True, setLastError ''Can only use bridged plugins with JACK backend'' e)
           else Inr (False, setLastError ''Bridged plugins are not implemented yet'' e))
        else
          (case (case ptype of PLUGIN_NONE \<Rightarrow> None | _ \<Rightarrow> newPlugin ptype pid) of
             None \<Rightarrow> Inr (False, e)
           | Some (a, p) \<Rightarrow>
               (case plugins e of
                  None \<Rightarrow> Inl NullPointer
                | Some ps \<Rightarrow>
                    if pid < length ps
                    then Inr (True,
                              e\<lparr> plugins := Some (ps[pid := \<lparr> plugin = Some a, insPeak = (0, 0),
                                                              outsPeak = (0, 0) \<rparr>]),
                                 curPluginCount := (curPluginCount e + 1) mod 2 ^ 32,
                                 heap := (heap e)(a \<mapsto> p) \<rparr>)
                    else Inl OutOfBounds)))"

subsection \<open>Removing a plugin\<close>

text \<open>
  The loop of \<^verbatim>\<open>doPluginRemove\<close> ("move all plugins 1 spot backwards"). It reads
  \<^verbatim>\<open>plugins[i+1]\<close>, stops at a null pointer, calls \<^verbatim>\<open>setId(i)\<close> on the object and
  stores the pointer with cleared peaks in \<^verbatim>\<open>plugins[i]\<close>.
\<close>

function doPluginRemove_loop ::
  "nat \<Rightarrow> nat \<Rightarrow> EnginePluginData list \<Rightarrow> (addr \<Rightarrow> CarlaPlugin option)
     \<Rightarrow> error + (EnginePluginData list \<times> (addr \<Rightarrow> CarlaPlugin option))" where
  "doPluginRemove_loop i count ps h =
     (if i < count
      then (if i + 1 < length ps
            then (case plugin (ps ! (i + 1)) of
                    None \<Rightarrow> Inr (ps, h)
                  | Some a \<Rightarrow>
                      (case h a of
                         None \<Rightarrow> Inl DanglingPointer
                       | Some p \<Rightarrow>
                           doPluginRemove_loop (i + 1) count
                             (ps[i := \<lparr> plugin = Some a, insPeak = (0, 0), outsPeak = (0, 0) \<rparr>])
                             (h(a \<mapsto> p\<lparr>plugin_id := i\<rparr>))))
            else Inl OutOfBounds)
      else Inr (ps, h))"
  by pat_completeness auto
termination
  by (relation "measure (\<lambda>(i, count, ps, h). count - i)") auto

text \<open>
  \<^verbatim>\<open>doPluginRemove\<close>: \<^verbatim>\<open>curPluginCount--\<close> on an \<^verbatim>\<open>unsigned int\<close> wraps at 0 (the
  \<^verbatim>\<open>CARLA_ASSERT\<close> before it only logs).
\<close>

definition doPluginRemove :: "CarlaEngine \<Rightarrow> error + CarlaEngine" where
  "doPluginRemove e =
     (let count = (if curPluginCount e = 0 then 2 ^ 32 - 1 else curPluginCount e - 1);
          pid = nextAction_pluginId e
      in case plugins e of
           None \<Rightarrow> Inl NullPointer
         | Some ps \<Rightarrow>
             if pid < length ps
             then (case doPluginRemove_loop pid count (ps[pid := (ps ! pid)\<lparr>plugin := None\<rparr>]) (heap e) of
                     Inl err \<Rightarrow> Inl err
                   | Inr (ps', h') \<Rightarrow>
                       Inr (e\<lparr> curPluginCount := count, plugins := Some ps', heap := h',
                              nextAction_opcode := EnginePostActionNull \<rparr>))
             else Inl OutOfBounds)"

definition doIdle :: "CarlaEngine \<Rightarrow> CarlaEngine" where
  "doIdle e = e\<lparr>nextAction_opcode := EnginePostActionNull\<rparr>"

definition proccessPendingEvents :: "CarlaEngine \<Rightarrow> error + CarlaEngine" where
  "proccessPendingEvents e =
     (case nextAction_opcode e of
        EnginePostActionNull \<Rightarrow> Inr e
      | EnginePostActionIdle \<Rightarrow> Inr (doIdle e)
      | EnginePostActionRemovePlugin \<Rightarrow> doPluginRemove e)"

text \<open>
  \<^verbatim>\<open>removePlugin\<close>. The pointer read from \<^verbatim>\<open>plugins[id]\<close> decides: a null pointer is
  "Could not find plugin to remove". \<^verbatim>\<open>CARLA_ASSERT(plugin->id() == id)\<close> reads the
  object. (\<open>pid\<close> is the C++ \<^verbatim>\<open>id\<close>.)
  When the engine is running the control thread waits until the processing thread has run
  the pending action in \<^verbatim>\<open>proccessPendingEvents\<close>; otherwise it runs \<^verbatim>\<open>doPluginRemove\<close>
  itself. Both run the same action, and the model runs it in place. The object is deleted
  afterwards.
\<close>

definition removePlugin :: "nat \<Rightarrow> CarlaEngine \<Rightarrow> error + (bool \<times> CarlaEngine)" where
  "removePlugin pid e =
     (case plugins e of
        None \<Rightarrow> Inr (False, setLastError ''Critical error: no plugins are currently loaded!'' e)
      | Some ps \<Rightarrow>
          if pid < length ps
          then (case plugin (ps ! pid) of
                  Some a \<Rightarrow>
                    (case heap e a of
                       None \<Rightarrow> Inl DanglingPointer
                     | Some p \<Rightarrow>
                         (case proccessPendingEvents
                                 (e\<lparr> nextAction_pluginId := pid,
                                     nextAction_opcode := EnginePostActionRemovePlugin \<rparr>) of
                            Inl err \<Rightarrow> Inl err
                          | Inr e' \<Rightarrow> Inr (True, e'\<lparr>heap := (heap e')(a := None)\<rparr>)))
                | None \<Rightarrow> Inr (False, setLastError ''Could not find plugin to remove'' e))
          else Inl OutOfBounds)"

subsection \<open>Sequences of additions and removals\<close>

datatype engine_op =
    AddPlugin BinaryType PluginType "PluginType \<Rightarrow> nat \<Rightarrow> (addr \<times> CarlaPlugin) option"
  | RemovePlugin nat

fun apply_op :: "BuildConfig \<Rightarrow> engine_op \<Rightarrow> CarlaEngine \<Rightarrow> error + CarlaEngine" where
  "apply_op cfg (AddPlugin btype ptype newPlugin) e =
     (case addPlugin cfg newPlugin btype ptype e of Inl err \<Rightarrow> Inl err | Inr (ok, e') \<Rightarrow> Inr e')"
| "apply_op cfg (RemovePlugin k) e =
     (case removePlugin k e of Inl err \<Rightarrow> Inl err | Inr (ok, e') \<Rightarrow> Inr e')"

fun run_ops :: "BuildConfig \<Rightarrow> engine_op list \<Rightarrow> CarlaEngine \<Rightarrow> error + CarlaEngine" where
  "run_ops cfg [] e = Inr e"
| "run_ops cfg (x # xs) e =
     (case apply_op cfg x e of Inl err \<Rightarrow> Inl err | Inr e' \<Rightarrow> run_ops cfg xs e')"

text \<open>
  The property of the table: every slot below \<^verbatim>\<open>curPluginCount\<close> points to a live plugin
  whose id is the index of the slot.
\<close>

definition slot_holds :: "CarlaEngine \<Rightarrow> nat \<Rightarrow> bool" where
  "slot_holds e i =
     (case plugins e of
        None \<Rightarrow> False
      | Some ps \<Rightarrow>
          i < length ps \<and>
          (case plugin (ps ! i) of
             None \<Rightarrow> False
           | Some a \<Rightarrow> (case heap e a of None \<Rightarrow> False | Some p \<Rightarrow> plugin_id p = i)))"

definition dense_prefix :: "CarlaEngine \<Rightarrow> bool" where
  "dense_prefix e = (\<forall>i < curPluginCount e. slot_holds e i)"

text \<open>
  The table as \<^verbatim>\<open>init\<close> allocates it: an array of \<^verbatim>\<open>maxPluginNumber\<close> entries, the count
  within it.
\<close>

definition table_allocated :: "CarlaEngine \<Rightarrow> bool" where
  "table_allocated e =
     (case plugins e of
        None \<Rightarrow> False
      | Some ps \<Rightarrow> length ps = maxPluginNumber e \<and> curPluginCount e \<le> maxPluginNumber e
                    \<and> maxPluginNumber e < 2 ^ 32)"

text \<open>
  What the callers owe: \<^verbatim>\<open>removePlugin(k)\<close> is called with \<open>k\<close> below the count (its
  \<^verbatim>\<open>CARLA_ASSERT(id < kData->curPluginCount)\<close>), and a plugin constructor returns a new
  object (an address that is not live) that carries the id of its initializer.
\<close>

fun op_ok :: "engine_op \<Rightarrow> CarlaEngine \<Rightarrow> bool" where
  "op_ok (AddPlugin btype ptype newPlugin) e =
     (case newPlugin ptype (curPluginCount e) of
        None \<Rightarrow> True
      | Some (a, p) \<Rightarrow> heap e a = None \<and> plugin_id p = curPluginCount e)"
| "op_ok (RemovePlugin k) e = (k < curPluginCount e)"

fun ops_ok :: "BuildConfig \<Rightarrow> engine_op list \<Rightarrow> CarlaEngine \<Rightarrow> bool" where
  "ops_ok cfg [] e = True"
| "ops_ok cfg (x # xs) e =
     (op_ok x e \<and> (case apply_op cfg x e of Inl err \<Rightarrow> True | Inr e' \<Rightarrow> ops_ok cfg xs e'))"

text \<open>The same for one slot of a table \<open>ps\<close> and a heap \<open>h\<close>.\<close>

definition slot_ok :: "EnginePluginData list \<Rightarrow> (addr \<Rightarrow> CarlaPlugin option) \<Rightarrow> nat \<Rightarrow> bool" where
  "slot_ok ps h j = (\<exists>a p. plugin (ps ! j) = Some a \<and> h a = Some p \<and> plugin_id p = j)"

text \<open>
  Slot \<open>i\<close> after a removal: it holds the pointer that slot \<open>i + 1\<close> held before, with
  cleared peaks, and the object is the one it was with its id set to \<open>i\<close>.
\<close>

definition slot_shifted :: "CarlaEngine \<Rightarrow> CarlaEngine \<Rightarrow> nat \<Rightarrow> bool" where
  "slot_shifted e e' i =
     (case plugins e of
        None \<Rightarrow> False
      | Some ps \<Rightarrow>
          (case plugins e' of
             None \<Rightarrow> False
           | Some ps' \<Rightarrow>
               i + 1 < length ps \<and> i < length ps' \<and>
               (case plugin (ps ! (i + 1)) of
                  None \<Rightarrow> False
                | Some a \<Rightarrow>
                    ps' ! i = \<lparr> plugin = Some a, insPeak = (0, 0), outsPeak = (0, 0) \<rparr> \<and>
                    (case heap e a of
                       None \<Rightarrow> False
                     | Some p \<Rightarrow> heap e' a = Some (p\<lparr>plugin_id := i\<rparr>)))))"

subsection \<open>Unique plugin names\<close>

text \<open>
  Modelled from the spec: \<^verbatim>\<open>CarlaString\<close> is a class of a missing header. \<^verbatim>\<open>truncate(n)\<close>
  keeps the first \<open>n\<close> characters, \<^verbatim>\<open>replace(a, b)\<close> replaces every \<open>a\<close> by \<open>b\<close>,
  \<^verbatim>\<open>isDigit(pos)\<close> tells whether the character at \<open>pos\<close> is a decimal digit (false past
  the end), \<^verbatim>\<open>operator[]\<close> reads the character array, \<^verbatim>\<open>+=\<close> appends.
\<close>

definition CarlaString_truncate :: "nat \<Rightarrow> string \<Rightarrow> string" where
  "CarlaString_truncate n s = take n s"

definition CarlaString_replace :: "char \<Rightarrow> char \<Rightarrow> string \<Rightarrow> string" where
  "CarlaString_replace before after s = map (\<lambda>c. if c = before then after else c) s"

definition CarlaString_isDigit :: "string \<Rightarrow> nat \<Rightarrow> bool" where
  "CarlaString_isDigit s pos = (pos < length s \<and> s ! pos \<in> set ''0123456789'')"

text \<open>\<^verbatim>\<open>char(c + 1)\<close>.\<close>

definition succ_char :: "char \<Rightarrow> char" where
  "succ_char c = char_of (of_char c + (1 :: nat))"

text \<open>\<^verbatim>\<open>maxClientNameSize()\<close> is \<^verbatim>\<open>STR_MAX/2\<close>; \<^verbatim>\<open>STR_MAX\<close> is a macro of a missing header.\<close>

definition maxClientNameSize :: "nat \<Rightarrow> nat" where
  "maxClientNameSize STR_MAX = STR_MAX div 2"

text \<open>
  The block "Check if string has already been modified" with the final \<^verbatim>\<open>sname += " (2)"\<close>.
  \<^verbatim>\<open>len\<close> is a \<^verbatim>\<open>size_t\<close>: with fewer than four characters \<^verbatim>\<open>sname[len-4]\<close>, the first
  operand of the first test, is a read outside the string, and with exactly four
  characters \<^verbatim>\<open>sname[len-5]\<close>, the first operand of the second test, is one. All other
  reads are inside the string.
\<close>

definition bumpName :: "string \<Rightarrow> error + string" where
  "bumpName sname =
     (let len = length sname in
      if len < 4 then Inl OutOfBounds
      else if sname ! (len - 4) = CHR '' '' \<and> sname ! (len - 3) = CHR ''(''
              \<and> CarlaString_isDigit sname (len - 2) \<and> sname ! (len - 1) = CHR '')''
      then (if sname ! (len - 2) = CHR ''9''
            then Inr (CarlaString_truncate (len - 4) sname @ '' (10)'')
            else Inr (sname[len - 2 := succ_char (sname ! (len - 2))]))
      else if len < 5 then Inl OutOfBounds
      else if sname ! (len - 5) = CHR '' '' \<and> sname ! (len - 4) = CHR ''(''
              \<and> CarlaString_isDigit sname (len - 3) \<and> CarlaString_isDigit sname (len - 2)
              \<and> sname ! (len - 1) = CHR '')''
      then (let n2 = sname ! (len - 2); n3 = sname ! (len - 3) in
            if n2 = CHR ''9''
            then Inr (sname[len - 2 := CHR ''0'', len - 3 := succ_char n3])
            else Inr (sname[len - 2 := succ_char n2, len - 3 := n3]))
      else Inr (sname @ '' (2)''))"

text \<open>
  The loop over the plugins. The counter is an \<^verbatim>\<open>unsigned short\<close>: \<^verbatim>\<open>i++\<close> at 65535 gives
  0, so with more than 65535 plugins the loop starts over after the body has run at 65535;
  the model stops there with \<open>LoopCounterWrap\<close>. A plugin whose \<^verbatim>\<open>name()\<close> is null is
  treated like one whose name equals \<^verbatim>\<open>sname\<close>.
\<close>

function getNewUniquePluginName_loop ::
  "EnginePluginData list \<Rightarrow> (addr \<Rightarrow> CarlaPlugin option) \<Rightarrow> nat \<Rightarrow> nat \<Rightarrow> string \<Rightarrow> error + string" where
  "getNewUniquePluginName_loop ps h count i sname =
     (if i < count
      then (if i < length ps
            then (case plugin (ps ! i) of
                    None \<Rightarrow> Inl NullPointer
                  | Some a \<Rightarrow>
                      (case h a of
                         None \<Rightarrow> Inl DanglingPointer
                       | Some p \<Rightarrow>
                           if plugin_name p \<noteq> None \<and> plugin_name p \<noteq> Some sname
                           then (if i \<ge> 65535 then Inl LoopCounterWrap
                                 else getNewUniquePluginName_loop ps h count (i + 1) sname)
                           else (case bumpName sname of
                                   Inl err \<Rightarrow> Inl err
                                 | Inr sname' \<Rightarrow>
                                     if i \<ge> 65535 then Inl LoopCounterWrap
                                     else getNewUniquePluginName_loop ps h count (i + 1) sname')))
            else Inl OutOfBounds)
      else Inr sname)"
  by pat_completeness auto
termination
  by (relation "measure (\<lambda>(ps, h, count, i, sname). count - i)") auto

text \<open>
  \<^verbatim>\<open>getNewUniquePluginName\<close>. \<^verbatim>\<open>maxClientNameSize()-5-1\<close>, here \<open>name_limit\<close>, is
  computed in \<^verbatim>\<open>unsigned int\<close>.
\<close>

definition name_limit :: "nat \<Rightarrow> nat" where
  "name_limit STR_MAX = (maxClientNameSize STR_MAX + 2 ^ 32 - 6) mod 2 ^ 32"

definition getNewUniquePluginName :: "nat \<Rightarrow> CarlaEngine \<Rightarrow> string \<Rightarrow> error + string" where
  "getNewUniquePluginName STR_MAX e name =
     (case plugins e of
        None \<Rightarrow> Inr ''(No name)''
      | Some ps \<Rightarrow>
          if name = [] then Inr ''(No name)''
          else
            let sname = CarlaString_replace CHR '':'' CHR ''.''
                          (CarlaString_truncate (name_limit STR_MAX) name)
            in getNewUniquePluginName_loop ps (heap e) (curPluginCount e) 0 sname)"

text \<open>The names of the plugins in the slots below \<^verbatim>\<open>curPluginCount\<close>, in slot order.\<close>

definition existing_names :: "CarlaEngine \<Rightarrow> string option list" where
  "existing_names e =
     (case plugins e of
        None \<Rightarrow> []
      | Some ps \<Rightarrow>
          concat (map (\<lambda>s. case plugin s of
                              None \<Rightarrow> []
                            | Some a \<Rightarrow> (case heap e a of None \<Rightarrow> [] | Some p \<Rightarrow> [plugin_name p]))
                      (take (curPluginCount e) ps)))"

subsection \<open>The rack\<close>

text \<open>
  \<^verbatim>\<open>processRack\<close>. Audio samples are only cleared and copied; they are \<open>real\<close>.
  A block yields the two output buffers and the plugins whose \<^verbatim>\<open>process\<close> was called, in
  the order of the calls. The only call of \<^verbatim>\<open>plugin->process\<close> in the function is between
  \<^verbatim>\<open>#if 0\<close> and \<^verbatim>\<open>#endif\<close>: the compiled loop body ends at \<^verbatim>\<open>processed = true\<close>.
\<close>

record RackBlock =
  outBuf0 :: "real list"
  outBuf1 :: "real list"
  processCalls :: "addr list"

function processRack_loop ::
  "EnginePluginData list option \<Rightarrow> (addr \<Rightarrow> CarlaPlugin option) \<Rightarrow> nat \<Rightarrow> nat \<Rightarrow> bool \<Rightarrow> addr list
     \<Rightarrow> error + (bool \<times> addr list)" where
  "processRack_loop pso h count i processed calls =
     (if i < count
      then (case pso of
              None \<Rightarrow> Inl NullPointer
            | Some ps \<Rightarrow>
                if i < length ps
                then (case plugin (ps ! i) of
                        None \<Rightarrow> processRack_loop pso h count (i + 1) processed calls
                      | Some a \<Rightarrow>
                          (case h a of
                             None \<Rightarrow> Inl DanglingPointer
                           | Some p \<Rightarrow>
                               if \<not> plugin_enabled p
                               then processRack_loop pso h count (i + 1) processed calls
                               else processRack_loop pso h count (i + 1) True calls))
                else Inl OutOfBounds)
      else Inr (processed, calls))"
  by pat_completeness auto
termination
  by (relation "measure (\<lambda>(pso, h, count, i, processed, calls). count - i)") auto

text \<open>\<^verbatim>\<open>carla_zeroFloat(buf, frames)\<close> and \<^verbatim>\<open>memcpy(dst, src, sizeof(float)*frames)\<close>.\<close>

definition carla_zeroFloat :: "real list \<Rightarrow> nat \<Rightarrow> error + real list" where
  "carla_zeroFloat buf frames =
     (if frames \<le> length buf then Inr (replicate frames 0 @ drop frames buf) else Inl OutOfBounds)"

definition memcpy_float :: "real list \<Rightarrow> real list \<Rightarrow> nat \<Rightarrow> error + real list" where
  "memcpy_float dst src frames =
     (if frames \<le> length dst \<and> frames \<le> length src
      then Inr (take frames src @ drop frames dst)
      else Inl OutOfBounds)"

definition processRack ::
  "CarlaEngine \<Rightarrow> real list \<Rightarrow> real list \<Rightarrow> real list \<Rightarrow> real list \<Rightarrow> nat \<Rightarrow> error + RackBlock" where
  "processRack e inBuf0 inBuf1 out0 out1 frames =
     (case carla_zeroFloat out0 frames of
        Inl err \<Rightarrow> Inl err
      | Inr z0 \<Rightarrow>
     (case carla_zeroFloat out1 frames of
        Inl err \<Rightarrow> Inl err
      | Inr z1 \<Rightarrow>
     (case processRack_loop (plugins e) (heap e) (curPluginCount e) 0 False [] of
        Inl err \<Rightarrow> Inl err
      | Inr (processed, calls) \<Rightarrow>
          if \<not> processed
          then (case memcpy_float z0 inBuf0 frames of
                  Inl err \<Rightarrow> Inl err
                | Inr c0 \<Rightarrow>
               (case memcpy_float z1 inBuf1 frames of
                  Inl err \<Rightarrow> Inl err
                | Inr c1 \<Rightarrow> Inr \<lparr> outBuf0 = c0, outBuf1 = c1, processCalls = calls \<rparr>))
          else Inr \<lparr> outBuf0 = z0, outBuf1 = z1, processCalls = calls \<rparr>)))"

text \<open>
  The calls the rack is specified to make: \<^verbatim>\<open>process\<close> once on each enabled plugin of the
  slots below \<^verbatim>\<open>curPluginCount\<close>, in ascending order.
\<close>

definition enabled_plugins :: "CarlaEngine \<Rightarrow> addr list" where
  "enabled_plugins e =
     (case plugins e of
        None \<Rightarrow> []
      | Some ps \<Rightarrow>
          concat (map (\<lambda>s. case plugin s of
                              None \<Rightarrow> []
                            | Some a \<Rightarrow> (case heap e a of
                                           None \<Rightarrow> []
                                         | Some p \<Rightarrow> if plugin_enabled p then [a] else []))
                      (take (curPluginCount e) ps)))"

subsection \<open>Example values\<close>

text \<open>Concrete options, engines and plugins on which the theorems below are evaluated.\<close>

definition exampleOptions :: EngineOptions where
  "exampleOptions =
     \<lparr> processMode = PROCESS_MODE_CONTINUOUS_RACK, maxParameters = 200,
       preferredBufferSize = 512, preferredSampleRate = 44100,
       forceStereo = False, useDssiVstChunks = False,
       preferPluginBridges = False, preferUiBridges = False, oscUiTimeout = 4000,
       bridge_native = [], bridge_posix32 = [], bridge_posix64 = [],
       bridge_win32 = [], bridge_win64 = [],
       bridge_lv2gtk2 = [], bridge_lv2gtk3 = [], bridge_lv2qt4 = [], bridge_lv2qt5 = [],
       bridge_lv2cocoa = [], bridge_lv2win = [], bridge_lv2x11 = [],
       bridge_vstcocoa = [], bridge_vsthwnd = [], bridge_vstx11 = [] \<rparr>"

definition exampleEngine :: CarlaEngine where
  "exampleEngine =
     \<lparr> fOptions = exampleOptions, running = False, engineType = kEngineTypeRtAudio,
       plugins = Some [emptyPluginData, emptyPluginData, emptyPluginData],
       curPluginCount = 0, maxPluginNumber = 3, lastError = [],
       aboutToClose = False, nextAction_opcode = EnginePostActionNull,
       nextAction_pluginId = 0, heap = Map.empty \<rparr>"

definition exampleConfig :: BuildConfig where
  "exampleConfig = \<lparr> Q_OS_WIN = False, BINARY_NATIVE = BINARY_POSIX64 \<rparr>"

text \<open>A constructor that builds a plugin with the id it is given, at the address \<open>a\<close>.\<close>

definition exampleLoader :: "addr \<Rightarrow> string \<Rightarrow> PluginType \<Rightarrow> nat \<Rightarrow> (addr \<times> CarlaPlugin) option" where
  "exampleLoader a name ptype i =
     Some (a, \<lparr> plugin_id = i, plugin_name = Some name, plugin_enabled = True \<rparr>)"

text \<open>Adding a native internal plugin built by \<open>exampleLoader\<close>.\<close>

definition add_example :: "addr \<Rightarrow> string \<Rightarrow> engine_op" where
  "add_example a name = AddPlugin BINARY_POSIX64 PLUGIN_INTERNAL (exampleLoader a name)"

text \<open>
  An engine whose table is full of enabled plugins with the given names: the plugin of
  slot \<open>i\<close> is the object at address \<open>i\<close>.
\<close>

definition engine_with_names :: "string list \<Rightarrow> CarlaEngine" where
  "engine_with_names names =
     exampleEngine
       \<lparr> plugins := Some (map (\<lambda>i. \<lparr> plugin = Some i, insPeak = (0, 0), outsPeak = (0, 0) \<rparr>)
                              [0 ..< length names]),
         curPluginCount := length names,
         maxPluginNumber := length names,
         heap := (\<lambda>a. if a < length names
                       then Some \<lparr> plugin_id = a, plugin_name = Some (names ! a),
                                   plugin_enabled = True \<rparr>
                       else None) \<rparr>"

text \<open>The names of the naming scenario of the spec, in slot order.\<close>

definition synth_names :: "string list" where
  "synth_names = [''synth'', ''synth (2)'', ''synth (3)'', ''synth (4)'', ''synth (5)'',
                  ''synth (6)'', ''synth (7)'', ''synth (8)'', ''synth (9)'']"

section \<open>Event ports: proofs\<close>

lemma port_wf_new:
  "port_wf (newCarlaEngineEventPort rc pc isInput mode)"
  by (simp add: port_wf_def newCarlaEngineEventPort_def)

lemma port_wf_initBuffer:
  assumes "port_wf p"
    and "\<And>f b. engine = Some f \<Longrightarrow> f (kIsInput p) = Some b \<Longrightarrow> length b = kMaxEventCount p"
    and "initBuffer n engine p = Inr p'"
  shows "port_wf p'"
  using assms
  by (auto simp: initBuffer_def port_wf_def split: option.splits if_splits)

declare getEventCount_loop.simps [simp del]
declare writeControlEvent_loop.simps [simp del]

lemma getEventCount_loop_eq:
  "i \<le> maxCount \<Longrightarrow> maxCount \<le> length events \<Longrightarrow>
   getEventCount_loop events maxCount i c = Inr (c + leading_events (drop i (take maxCount events)))"
proof (induction events maxCount i c rule: getEventCount_loop.induct)
  case (1 events maxCount i c)
  show ?case
  proof (cases "i < maxCount")
    case False
    with 1 show ?thesis
      by (subst getEventCount_loop.simps) (simp add: leading_events_def)
  next
    case True
    with 1 have il: "i < length events" by simp
    from True il have d: "drop i (take maxCount events) = events ! i # drop (Suc i) (take maxCount events)"
      using Cons_nth_drop_Suc [of i "take maxCount events"] "1.prems" by simp
    show ?thesis
    proof (cases "ev_type (events ! i) = kEngineEventTypeNull")
      case True
      with \<open>i < maxCount\<close> il d show ?thesis
        by (subst getEventCount_loop.simps) (simp add: leading_events_def)
    next
      case False
      with \<open>i < maxCount\<close> il d 1 show ?thesis
        by (subst getEventCount_loop.simps) (simp add: leading_events_def)
    qed
  qed
qed

lemma leading_events_le: "leading_events events \<le> length events"
  by (simp add: leading_events_def length_takeWhile_le)

lemma leading_events_first_null:
  assumes "\<exists>e \<in> set events. ev_type e = kEngineEventTypeNull"
  shows "leading_events events < length events \<and>
         ev_type (events ! leading_events events) = kEngineEventTypeNull"
proof -
  let ?P = "\<lambda>e. ev_type e \<noteq> kEngineEventTypeNull"
  have "takeWhile ?P events \<noteq> events"
    using assms by (simp add: takeWhile_eq_all_conv)
  then have "length (takeWhile ?P events) \<noteq> length events"
    by (metis takeWhile_eq_take take_all order_refl)
  then have lt: "length (takeWhile ?P events) < length events"
    using length_takeWhile_le [of ?P events] by simp
  from nth_length_takeWhile [OF lt] lt show ?thesis
    by (simp add: leading_events_def)
qed

lemma leading_events_before:
  "j < leading_events events \<Longrightarrow> ev_type (events ! j) \<noteq> kEngineEventTypeNull"
  unfolding leading_events_def
  using nth_mem [of j "takeWhile (\<lambda>e. ev_type e \<noteq> kEngineEventTypeNull) events"]
        takeWhile_nth [of j "\<lambda>e. ev_type e \<noteq> kEngineEventTypeNull" events]
        set_takeWhileD [of "events ! j" "\<lambda>e. ev_type e \<noteq> kEngineEventTypeNull" events]
  by simp

lemma leading_events_full:
  "\<forall>e \<in> set events. ev_type e \<noteq> kEngineEventTypeNull \<Longrightarrow> leading_events events = length events"
proof -
  assume "\<forall>e \<in> set events. ev_type e \<noteq> kEngineEventTypeNull"
  then have "takeWhile (\<lambda>e. ev_type e \<noteq> kEngineEventTypeNull) events = events"
    by (simp add: takeWhile_eq_all_conv)
  then show ?thesis by (simp only: leading_events_def)
qed

lemma writeControlEvent_loop_eq:
  "i \<le> maxCount \<Longrightarrow> maxCount \<le> length events \<Longrightarrow>
   writeControlEvent_loop events maxCount i t ch ty pa v =
     Inr (let k = i + leading_events (drop i (take maxCount events)) in
          if k < maxCount
          then events[k := (events ! k)\<lparr> ev_type := kEngineEventTypeControl, ev_time := t,
                    ev_channel := ch, ctrl := \<lparr> ctrl_type = ty, ctrl_param = pa, ctrl_value = v \<rparr> \<rparr>]
          else events)"
proof (induction events maxCount i t ch ty pa v rule: writeControlEvent_loop.induct)
  case (1 events maxCount i t ch ty pa v)
  show ?case
  proof (cases "i < maxCount")
    case False
    with 1 show ?thesis
      by (subst writeControlEvent_loop.simps) (simp add: leading_events_def)
  next
    case True
    with 1 have il: "i < length events" by simp
    from True il have d: "drop i (take maxCount events) = events ! i # drop (Suc i) (take maxCount events)"
      using Cons_nth_drop_Suc [of i "take maxCount events"] "1.prems" by simp
    show ?thesis
    proof (cases "ev_type (events ! i) = kEngineEventTypeNull")
      case True
      with \<open>i < maxCount\<close> il d show ?thesis
        by (subst writeControlEvent_loop.simps) (simp add: leading_events_def)
    next
      case False
      with \<open>i < maxCount\<close> il d 1 show ?thesis
        by (subst writeControlEvent_loop.simps) (simp add: leading_events_def Let_def)
    qed
  qed
qed

text \<open>
  Claim C7. On an input port whose buffer holds a \<^verbatim>\<open>Null\<close> entry, \<^verbatim>\<open>getEventCount\<close> returns
  the index of the first such entry, which is the number of entries before it; on a port
  that is not an input, or has no buffer, it returns 0.
\<close>

lemma port_wf_writeControlEvent:
  assumes wf: "port_wf p" and w: "writeControlEvent p t ch ty pa v = Inr p'"
  shows "port_wf p'"
proof (cases "fBuffer p")
  case None
  with w wf show ?thesis by (auto simp: writeControlEvent_def split: if_splits)
next
  case (Some events)
  with wf have len: "length events = kMaxEventCount p"
    and mode: "kProcessMode p = PROCESS_MODE_CONTINUOUS_RACK \<or> kProcessMode p = PROCESS_MODE_PATCHBAY"
    by (auto simp: port_wf_def)
  from writeControlEvent_loop_eq [of 0 "kMaxEventCount p" events t ch ty pa v] len
  obtain events' where l: "writeControlEvent_loop events (kMaxEventCount p) 0 t ch ty pa v = Inr events'"
    and ll: "length events' = length events"
    by (auto simp: Let_def)
  from w Some l have "p' = p \<or> p' = p\<lparr>fBuffer := Some events'\<rparr>"
    by (auto simp: writeControlEvent_def split: if_splits)
  with wf Some len mode ll show ?thesis by (auto simp: port_wf_def)
qed

theorem getEventCount_first_null:
  "(port_wf p \<and> kIsInput p \<and> fBuffer p = Some events \<and>
      (\<exists>e \<in> set events. ev_type e = kEngineEventTypeNull) \<longrightarrow>
      (\<exists>n. getEventCount p = Inr n \<and> n < length events \<and>
           ev_type (events ! n) = kEngineEventTypeNull \<and>
           (\<forall>j < n. ev_type (events ! j) \<noteq> kEngineEventTypeNull) \<and>
           n = leading_events events))
   \<and> (\<not> kIsInput p \<or> fBuffer p = None \<longrightarrow> getEventCount p = Inr 0)"
proof (intro conjI impI)
  assume a: "port_wf p \<and> kIsInput p \<and> fBuffer p = Some events \<and>
      (\<exists>e \<in> set events. ev_type e = kEngineEventTypeNull)"
  then have len: "length events = kMaxEventCount p"
    and mode: "kProcessMode p = PROCESS_MODE_CONTINUOUS_RACK \<or> kProcessMode p = PROCESS_MODE_PATCHBAY"
    by (auto simp: port_wf_def)
  from a mode have "getEventCount p = getEventCount_loop events (kMaxEventCount p) 0 0"
    by (auto simp: getEventCount_def)
  also have "\<dots> = Inr (leading_events events)"
    using getEventCount_loop_eq [of 0 "kMaxEventCount p" events 0] len by simp
  finally have "getEventCount p = Inr (leading_events events)" .
  moreover from a have "leading_events events < length events \<and>
      ev_type (events ! leading_events events) = kEngineEventTypeNull"
    using leading_events_first_null by blast
  ultimately show "\<exists>n. getEventCount p = Inr n \<and> n < length events \<and>
           ev_type (events ! n) = kEngineEventTypeNull \<and>
           (\<forall>j < n. ev_type (events ! j) \<noteq> kEngineEventTypeNull) \<and>
           n = leading_events events"
    using leading_events_before by blast
next
  assume "\<not> kIsInput p \<or> fBuffer p = None"
  then show "getEventCount p = Inr 0"
    by (auto simp: getEventCount_def)
qed

theorem getEventCount_first_null_witness:
  "getEventCount \<lparr> kIsInput = True, kProcessMode = PROCESS_MODE_PATCHBAY, kMaxEventCount = 3,
       fBuffer = Some [kFallbackEngineEvent\<lparr>ev_type := kEngineEventTypeMidi\<rparr>,
                       kFallbackEngineEvent, kFallbackEngineEvent] \<rparr> = Inr 1"
  using getEventCount_first_null
    [of "\<lparr> kIsInput = True, kProcessMode = PROCESS_MODE_PATCHBAY, kMaxEventCount = 3,
       fBuffer = Some [kFallbackEngineEvent\<lparr>ev_type := kEngineEventTypeMidi\<rparr>,
                       kFallbackEngineEvent, kFallbackEngineEvent] \<rparr>"
        "[kFallbackEngineEvent\<lparr>ev_type := kEngineEventTypeMidi\<rparr>,
                       kFallbackEngineEvent, kFallbackEngineEvent]"]
  by (simp add: port_wf_def kFallbackEngineEvent_def leading_events_def)

text \<open>
  Claim C10. \<^verbatim>\<open>getEventCount\<close> returns a count (it never reads past the end of the buffer),
  the count is at most the capacity, and it is the capacity when no entry is \<^verbatim>\<open>Null\<close>.
\<close>

theorem getEventCount_bounded:
  "port_wf p \<Longrightarrow>
   \<exists>n. getEventCount p = Inr n \<and> n \<le> kMaxEventCount p \<and>
       (\<forall>events. kIsInput p \<and> fBuffer p = Some events \<and>
            (\<forall>e \<in> set events. ev_type e \<noteq> kEngineEventTypeNull) \<longrightarrow> n = kMaxEventCount p)"
proof (cases "kIsInput p \<and> fBuffer p \<noteq> None")
  case False
  then show ?thesis by (auto simp: getEventCount_def)
next
  case True
  then obtain events where ev: "fBuffer p = Some events" by auto
  assume "port_wf p"
  with ev have len: "length events = kMaxEventCount p"
    and mode: "kProcessMode p = PROCESS_MODE_CONTINUOUS_RACK \<or> kProcessMode p = PROCESS_MODE_PATCHBAY"
    by (auto simp: port_wf_def)
  from True ev mode have "getEventCount p = getEventCount_loop events (kMaxEventCount p) 0 0"
    by (auto simp: getEventCount_def)
  also have "\<dots> = Inr (leading_events events)"
    using getEventCount_loop_eq [of 0 "kMaxEventCount p" events 0] len by simp
  finally have "getEventCount p = Inr (leading_events events)" .
  with ev len leading_events_le [of events] leading_events_full [of events]
  show ?thesis by auto
qed

theorem getEventCount_bounded_witness:
  "getEventCount \<lparr> kIsInput = True, kProcessMode = PROCESS_MODE_CONTINUOUS_RACK, kMaxEventCount = 2,
       fBuffer = Some [kFallbackEngineEvent\<lparr>ev_type := kEngineEventTypeMidi\<rparr>,
                       kFallbackEngineEvent\<lparr>ev_type := kEngineEventTypeControl\<rparr>] \<rparr> = Inr 2"
  using getEventCount_bounded
    [of "\<lparr> kIsInput = True, kProcessMode = PROCESS_MODE_CONTINUOUS_RACK, kMaxEventCount = 2,
       fBuffer = Some [kFallbackEngineEvent\<lparr>ev_type := kEngineEventTypeMidi\<rparr>,
                       kFallbackEngineEvent\<lparr>ev_type := kEngineEventTypeControl\<rparr>] \<rparr>"]
  by (simp add: port_wf_def kFallbackEngineEvent_def)

text \<open>
  Claim C8. \<^verbatim>\<open>getEvent\<close> always returns an event: the buffer entry at the index when the
  port is an input with a buffer and the index is below the capacity (the index is then
  inside the array), and the \<^verbatim>\<open>Null\<close> fallback event otherwise.
\<close>

theorem getEvent_total:
  "port_wf p \<Longrightarrow>
   getEvent p i = Inr (case fBuffer p of
                         None \<Rightarrow> kFallbackEngineEvent
                       | Some events \<Rightarrow>
                           if kIsInput p \<and> i < kMaxEventCount p then events ! i
                           else kFallbackEngineEvent)
   \<and> (\<forall>events. fBuffer p = Some events \<and> i < kMaxEventCount p \<longrightarrow> i < length events)
   \<and> ev_type kFallbackEngineEvent = kEngineEventTypeNull"
  by (auto simp: getEvent_def port_wf_def kFallbackEngineEvent_def split: option.splits)

theorem getEvent_total_witness:
  "getEvent \<lparr> kIsInput = True, kProcessMode = PROCESS_MODE_PATCHBAY, kMaxEventCount = 2,
       fBuffer = Some [kFallbackEngineEvent\<lparr>ev_type := kEngineEventTypeMidi\<rparr>,
                       kFallbackEngineEvent\<lparr>ev_type := kEngineEventTypeControl\<rparr>] \<rparr> 1
     = Inr (kFallbackEngineEvent\<lparr>ev_type := kEngineEventTypeControl\<rparr>)
   \<and> getEvent \<lparr> kIsInput = True, kProcessMode = PROCESS_MODE_PATCHBAY, kMaxEventCount = 2,
       fBuffer = Some [kFallbackEngineEvent\<lparr>ev_type := kEngineEventTypeMidi\<rparr>,
                       kFallbackEngineEvent\<lparr>ev_type := kEngineEventTypeControl\<rparr>] \<rparr> 2
     = Inr kFallbackEngineEvent"
  using getEvent_total
    [of "\<lparr> kIsInput = True, kProcessMode = PROCESS_MODE_PATCHBAY, kMaxEventCount = 2,
       fBuffer = Some [kFallbackEngineEvent\<lparr>ev_type := kEngineEventTypeMidi\<rparr>,
                       kFallbackEngineEvent\<lparr>ev_type := kEngineEventTypeControl\<rparr>] \<rparr>" 1]
    getEvent_total
    [of "\<lparr> kIsInput = True, kProcessMode = PROCESS_MODE_PATCHBAY, kMaxEventCount = 2,
       fBuffer = Some [kFallbackEngineEvent\<lparr>ev_type := kEngineEventTypeMidi\<rparr>,
                       kFallbackEngineEvent\<lparr>ev_type := kEngineEventTypeControl\<rparr>] \<rparr>" 2]
  by (simp add: port_wf_def)

text \<open>
  Claim C6. When \<^verbatim>\<open>writeControlEvent\<close> passes its checks on an output port whose buffer
  holds \<open>n\<close> events and is not full, the port read as an input has at index \<open>n\<close> a control
  event with the time, channel, control type, parameter and value that were written.
\<close>

theorem writeControlEvent_then_getEvent:
  assumes wf: "port_wf p"
    and out: "\<not> kIsInput p"
    and buf: "fBuffer p = Some events"
    and ty: "ty \<noteq> kEngineControlEventTypeNull"
    and ch: "ch < MAX_MIDI_CHANNELS"
    and n: "n = leading_events events"
    and room: "n < kMaxEventCount p"
  shows "\<exists>p' e. writeControlEvent p t ch ty pa v = Inr p' \<and>
           getEvent (p'\<lparr>kIsInput := True\<rparr>) n = Inr e \<and>
           ev_type e = kEngineEventTypeControl \<and> ev_time e = t \<and> ev_channel e = ch \<and>
           ctrl_type (ctrl e) = ty \<and> ctrl_param (ctrl e) = pa \<and> ctrl_value (ctrl e) = v"
proof -
  from wf buf have len: "length events = kMaxEventCount p"
    and mode: "kProcessMode p = PROCESS_MODE_CONTINUOUS_RACK \<or> kProcessMode p = PROCESS_MODE_PATCHBAY"
    by (auto simp: port_wf_def)
  let ?e = "(events ! n)\<lparr> ev_type := kEngineEventTypeControl, ev_time := t,
                    ev_channel := ch, ctrl := \<lparr> ctrl_type = ty, ctrl_param = pa, ctrl_value = v \<rparr> \<rparr>"
  have loop: "writeControlEvent_loop events (kMaxEventCount p) 0 t ch ty pa v = Inr (events[n := ?e])"
    using writeControlEvent_loop_eq [of 0 "kMaxEventCount p" events t ch ty pa v] len n room
    by (simp add: Let_def)
  have w: "writeControlEvent p t ch ty pa v = Inr (p\<lparr>fBuffer := Some (events[n := ?e])\<rparr>)"
    using out buf ty ch mode loop by (auto simp: writeControlEvent_def)
  have g: "getEvent (p\<lparr>fBuffer := Some (events[n := ?e]), kIsInput := True\<rparr>) n = Inr ?e"
    using mode room len by (auto simp: getEvent_def)
  from w g show ?thesis by simp
qed

theorem writeControlEvent_then_getEvent_witness:
  "\<exists>p' e. writeControlEvent
       \<lparr> kIsInput = False, kProcessMode = PROCESS_MODE_PATCHBAY, kMaxEventCount = 2,
         fBuffer = Some [kFallbackEngineEvent\<lparr>ev_type := kEngineEventTypeMidi\<rparr>, kFallbackEngineEvent] \<rparr>
       5 3 kEngineControlEventTypeParameter 7 (1/2) = Inr p' \<and>
     getEvent (p'\<lparr>kIsInput := True\<rparr>) 1 = Inr e \<and>
     ev_type e = kEngineEventTypeControl \<and> ev_time e = 5 \<and> ev_channel e = 3 \<and>
     ctrl_type (ctrl e) = kEngineControlEventTypeParameter \<and> ctrl_param (ctrl e) = 7 \<and>
     ctrl_value (ctrl e) = 1/2"
  using writeControlEvent_then_getEvent
    [of "\<lparr> kIsInput = False, kProcessMode = PROCESS_MODE_PATCHBAY, kMaxEventCount = 2,
         fBuffer = Some [kFallbackEngineEvent\<lparr>ev_type := kEngineEventTypeMidi\<rparr>, kFallbackEngineEvent] \<rparr>"
        "[kFallbackEngineEvent\<lparr>ev_type := kEngineEventTypeMidi\<rparr>, kFallbackEngineEvent]"
        kEngineControlEventTypeParameter 3 1 5 7 "1/2"]
  by (simp add: port_wf_def kFallbackEngineEvent_def leading_events_def MAX_MIDI_CHANNELS_def)

lemma writeControlEvent_guarded:
  "kIsInput p \<or> fBuffer p = None \<or> ty = kEngineControlEventTypeNull \<or> ch \<ge> MAX_MIDI_CHANNELS
     \<Longrightarrow> writeControlEvent p t ch ty pa v = Inr p"
  by (auto simp: writeControlEvent_def split: option.splits)

text \<open>
  Claim C3, evaluated where it fails. On an empty patchbay output port of capacity 2,
  \<^verbatim>\<open>writeControlEvent\<close> with the value 3/2 writes the event, and so does a
  \<^verbatim>\<open>Parameter\<close> event whose parameter is the bank-select controller 0.
\<close>

theorem writeControlEvent_unchecked_value:
  "writeControlEvent (newCarlaEngineEventPort 2 2 False PROCESS_MODE_PATCHBAY)
       0 0 kEngineControlEventTypeParameter 7 (3/2)
     = Inr \<lparr> kIsInput = False, kProcessMode = PROCESS_MODE_PATCHBAY, kMaxEventCount = 2,
             fBuffer = Some [kFallbackEngineEvent
                               \<lparr> ev_type := kEngineEventTypeControl,
                                 ctrl := \<lparr> ctrl_type = kEngineControlEventTypeParameter,
                                          ctrl_param = 7, ctrl_value = 3/2 \<rparr> \<rparr>,
                             kFallbackEngineEvent] \<rparr>
   \<and> writeControlEvent (newCarlaEngineEventPort 2 2 False PROCESS_MODE_PATCHBAY)
       0 0 kEngineControlEventTypeParameter 0 (1/2)
     = Inr \<lparr> kIsInput = False, kProcessMode = PROCESS_MODE_PATCHBAY, kMaxEventCount = 2,
             fBuffer = Some [kFallbackEngineEvent
                               \<lparr> ev_type := kEngineEventTypeControl,
                                 ctrl := \<lparr> ctrl_type = kEngineControlEventTypeParameter,
                                          ctrl_param = 0, ctrl_value = 1/2 \<rparr> \<rparr>,
                             kFallbackEngineEvent] \<rparr>"
proof -
  have r: "\<And>x :: EngineEvent. replicate 2 x = [x, x]"
    by (simp add: numeral_2_eq_2)
  show ?thesis
    by (simp add: writeControlEvent_def newCarlaEngineEventPort_def MAX_MIDI_CHANNELS_def
        writeControlEvent_loop.simps r kFallbackEngineEvent_def)
qed

section \<open>Options and bridge policy: proofs\<close>

text \<open>
  Claim C9. \<^verbatim>\<open>setOption(OPTION_PROCESS_MODE, v, s)\<close> leaves a running engine as it is; on
  a stopped engine a value outside \<^verbatim>\<open>[PROCESS_MODE_SINGLE_CLIENT .. PROCESS_MODE_PATCHBAY]\<close>
  leaves the engine as it is too, and a value inside sets \<^verbatim>\<open>processMode\<close> to the mode with
  that number and changes nothing else.
\<close>

theorem setOption_process_mode:
  "(running e \<longrightarrow> setOption OPTION_PROCESS_MODE v s e = e)
   \<and> (\<not> running e \<and> (v < int_of_ProcessMode PROCESS_MODE_SINGLE_CLIENT
                        \<or> v > int_of_ProcessMode PROCESS_MODE_PATCHBAY)
        \<longrightarrow> setOption OPTION_PROCESS_MODE v s e = e)
   \<and> (\<not> running e \<and> int_of_ProcessMode PROCESS_MODE_SINGLE_CLIENT \<le> v
                    \<and> v \<le> int_of_ProcessMode PROCESS_MODE_PATCHBAY
        \<longrightarrow> setOption OPTION_PROCESS_MODE v s e
              = e\<lparr>fOptions := (fOptions e)\<lparr>processMode := ProcessMode_of_int v\<rparr>\<rparr>
            \<and> int_of_ProcessMode (ProcessMode_of_int v) = v)"
  by (auto simp: setOption_def ProcessMode_of_int_def)

theorem setOption_process_mode_witness:
  "setOption OPTION_PROCESS_MODE 3 [] (exampleEngine\<lparr>running := True\<rparr>) = exampleEngine\<lparr>running := True\<rparr>
   \<and> setOption OPTION_PROCESS_MODE 4 [] exampleEngine = exampleEngine
   \<and> processMode (fOptions (setOption OPTION_PROCESS_MODE 3 [] exampleEngine)) = PROCESS_MODE_PATCHBAY"
  using setOption_process_mode [of "exampleEngine\<lparr>running := True\<rparr>" 3 "[]"]
        setOption_process_mode [of exampleEngine 4 "[]"]
        setOption_process_mode [of exampleEngine 3 "[]"]
  by (simp add: exampleEngine_def exampleOptions_def ProcessMode_of_int_def)

text \<open>
  Claim C2, evaluated where it fails. With \<^verbatim>\<open>preferPluginBridges\<close> set and a bridge binary
  configured for \<^verbatim>\<open>BINARY_POSIX32\<close>, \<^verbatim>\<open>addPlugin\<close> in rack mode, and in multi-client
  mode on an engine that is not JACK, sets the last error and returns \<^verbatim>\<open>true\<close>.
\<close>

theorem addPlugin_bridge_refusal_returns_true:
  "addPlugin exampleConfig (exampleLoader 1 ''a'') BINARY_POSIX32 PLUGIN_LADSPA
     (exampleEngine\<lparr>fOptions := exampleOptions\<lparr>preferPluginBridges := True,
                                                  bridge_posix32 := ''carla-bridge-posix32''\<rparr>\<rparr>)
   = Inr (True,
          exampleEngine\<lparr>fOptions := exampleOptions\<lparr>preferPluginBridges := True,
                                                   bridge_posix32 := ''carla-bridge-posix32''\<rparr>,
                        lastError := ''Can only use bridged plugins in JACK Multi-Client mode''\<rparr>)
   \<and> addPlugin exampleConfig (exampleLoader 1 ''a'') BINARY_POSIX32 PLUGIN_LADSPA
     (exampleEngine\<lparr>fOptions := exampleOptions\<lparr>preferPluginBridges := True,
                                                  processMode := PROCESS_MODE_MULTIPLE_CLIENTS,
                                                  bridge_posix32 := ''carla-bridge-posix32''\<rparr>\<rparr>)
   = Inr (True,
          exampleEngine\<lparr>fOptions := exampleOptions\<lparr>preferPluginBridges := True,
                                                   processMode := PROCESS_MODE_MULTIPLE_CLIENTS,
                                                   bridge_posix32 := ''carla-bridge-posix32''\<rparr>,
                        lastError := ''Can only use bridged plugins with JACK backend''\<rparr>)"
  by (simp add: addPlugin_def exampleEngine_def exampleOptions_def exampleConfig_def
      bridgeBinaryFor_def setLastError_def)


lemma init_table:
  assumes "MAX_RACK_PLUGINS < 2 ^ 32" "MAX_PATCHBAY_PLUGINS < 2 ^ 32" "MAX_DEFAULT_PLUGINS < 2 ^ 32"
  shows "table_allocated (init MAX_RACK_PLUGINS MAX_PATCHBAY_PLUGINS MAX_DEFAULT_PLUGINS e)
         \<and> dense_prefix (init MAX_RACK_PLUGINS MAX_PATCHBAY_PLUGINS MAX_DEFAULT_PLUGINS e)"
  using assms
  by (cases "processMode (fOptions e)")
     (simp_all add: init_def table_allocated_def dense_prefix_def)

lemma init_exampleEngine:
  "init 3 3 3 (exampleEngine\<lparr>plugins := None, maxPluginNumber := 0\<rparr>) = exampleEngine"
  by (simp add: init_def exampleEngine_def exampleOptions_def numeral_3_eq_3)

section \<open>The plugin table: proofs\<close>

declare doPluginRemove_loop.simps [simp del]

lemma slot_ok_distinct:
  "slot_ok ps h i \<Longrightarrow> slot_ok ps h j \<Longrightarrow> plugin (ps ! i) = plugin (ps ! j) \<Longrightarrow> i = j"
  by (auto simp: slot_ok_def)

lemma doPluginRemove_loop_spec:
  "c < length ps \<Longrightarrow> (\<forall>j. i < j \<and> j \<le> c \<longrightarrow> slot_ok ps h j) \<Longrightarrow>
   \<exists>ps' h'. doPluginRemove_loop i c ps h = Inr (ps', h') \<and> length ps' = length ps \<and>
     (\<forall>j. i \<le> j \<and> j < c \<longrightarrow>
        (\<exists>a p. plugin (ps ! (j + 1)) = Some a \<and> h a = Some p \<and>
               ps' ! j = \<lparr> plugin = Some a, insPeak = (0, 0), outsPeak = (0, 0) \<rparr> \<and>
               h' a = Some (p\<lparr>plugin_id := j\<rparr>))) \<and>
     (\<forall>j. j < i \<or> c \<le> j \<longrightarrow> ps' ! j = ps ! j) \<and>
     (\<forall>a. (\<forall>j. i < j \<and> j \<le> c \<longrightarrow> plugin (ps ! j) \<noteq> Some a) \<longrightarrow> h' a = h a)"
proof (induction i c ps h rule: doPluginRemove_loop.induct)
  case (1 i c ps h)
  show ?case
  proof (cases "i < c")
    case False
    then have "doPluginRemove_loop i c ps h = Inr (ps, h)"
      by (subst doPluginRemove_loop.simps) simp
    moreover from False have "\<And>j. i \<le> j \<and> j < c \<Longrightarrow> False" by arith
    ultimately show ?thesis by blast
  next
    case True
    with "1.prems" have len: "i + 1 < length ps" by simp
    from True "1.prems"(2) have "slot_ok ps h (i + 1)" by simp
    then obtain a p where a: "plugin (ps ! (i + 1)) = Some a" and p: "h a = Some p"
      and pid: "plugin_id p = i + 1"
      by (auto simp: slot_ok_def)
    let ?ps1 = "ps[i := \<lparr> plugin = Some a, insPeak = (0, 0), outsPeak = (0, 0) \<rparr>]"
    let ?h1 = "h(a \<mapsto> p\<lparr>plugin_id := i\<rparr>)"
    have other: "plugin (ps ! j) \<noteq> Some a" if "i + 1 < j" "j \<le> c" for j
    proof
      assume e: "plugin (ps ! j) = Some a"
      from that "1.prems"(2) have "slot_ok ps h j" by simp
      with e p pid that show False by (auto simp: slot_ok_def)
    qed
    have ok1: "\<forall>j. i + 1 < j \<and> j \<le> c \<longrightarrow> slot_ok ?ps1 ?h1 j"
    proof (intro allI impI)
      fix j assume j: "i + 1 < j \<and> j \<le> c"
      with "1.prems"(2) have "slot_ok ps h j" by simp
      moreover from j other have "plugin (ps ! j) \<noteq> Some a" by simp
      ultimately show "slot_ok ?ps1 ?h1 j" using j
        by (auto simp: slot_ok_def)
    qed
    have len1: "c < length ?ps1" using "1.prems"(1) by simp
    from "1.IH" [OF True len a p len1 ok1]
    obtain ps' h' where
      r: "doPluginRemove_loop (i + 1) c ?ps1 ?h1 = Inr (ps', h')"
      and l: "length ps' = length ?ps1"
      and sh: "\<forall>j. i + 1 \<le> j \<and> j < c \<longrightarrow>
        (\<exists>a' p'. plugin (?ps1 ! (j + 1)) = Some a' \<and> ?h1 a' = Some p' \<and>
               ps' ! j = \<lparr> plugin = Some a', insPeak = (0, 0), outsPeak = (0, 0) \<rparr> \<and>
               h' a' = Some (p'\<lparr>plugin_id := j\<rparr>))"
      and fr: "\<forall>j. j < i + 1 \<or> c \<le> j \<longrightarrow> ps' ! j = ?ps1 ! j"
      and hf: "\<forall>a'. (\<forall>j. i + 1 < j \<and> j \<le> c \<longrightarrow> plugin (?ps1 ! j) \<noteq> Some a') \<longrightarrow> h' a' = ?h1 a'"
      by blast
    have run: "doPluginRemove_loop i c ps h = Inr (ps', h')"
      using True len a p r by (subst doPluginRemove_loop.simps) simp
    have c1: "length ps' = length ps" using l by simp
    have ha: "h' a = Some (p\<lparr>plugin_id := i\<rparr>)"
    proof -
      have "\<forall>j. i + 1 < j \<and> j \<le> c \<longrightarrow> plugin (?ps1 ! j) \<noteq> Some a"
        using other by simp
      with hf have "h' a = ?h1 a" by blast
      then show ?thesis by simp
    qed
    have c2: "\<exists>a' p'. plugin (ps ! (j + 1)) = Some a' \<and> h a' = Some p' \<and>
               ps' ! j = \<lparr> plugin = Some a', insPeak = (0, 0), outsPeak = (0, 0) \<rparr> \<and>
               h' a' = Some (p'\<lparr>plugin_id := j\<rparr>)" if j: "i \<le> j \<and> j < c" for j
    proof (cases "j = i")
      case True
      from fr have "ps' ! i = ?ps1 ! i" by simp
      with len have "ps' ! i = \<lparr> plugin = Some a, insPeak = (0, 0), outsPeak = (0, 0) \<rparr>" by simp
      with True a p ha show ?thesis by simp
    next
      case False
      with j have j1: "i + 1 \<le> j \<and> j < c" by simp
      with sh obtain a' p' where
        x: "plugin (?ps1 ! (j + 1)) = Some a'" "?h1 a' = Some p'"
           "ps' ! j = \<lparr> plugin = Some a', insPeak = (0, 0), outsPeak = (0, 0) \<rparr>"
           "h' a' = Some (p'\<lparr>plugin_id := j\<rparr>)"
        by blast
      from j1 x(1) have y: "plugin (ps ! (j + 1)) = Some a'" by simp
      with other [of "j + 1"] j1 have "a' \<noteq> a" by auto
      with x(2) have "h a' = Some p'" by simp
      with y x show ?thesis by simp
    qed
    have c3: "ps' ! j = ps ! j" if "j < i \<or> c \<le> j" for j
    proof -
      from that True have "j < i + 1 \<or> c \<le> j" by auto
      with fr have "ps' ! j = ?ps1 ! j" by blast
      moreover from that True have "j \<noteq> i" by auto
      ultimately show ?thesis by simp
    qed
    have c4: "h' a' = h a'" if n: "\<forall>j. i < j \<and> j \<le> c \<longrightarrow> plugin (ps ! j) \<noteq> Some a'" for a'
    proof -
      from n True a have ne: "a' \<noteq> a" by (metis Suc_eq_plus1 Suc_leI lessI)
      from n have "\<forall>j. i + 1 < j \<and> j \<le> c \<longrightarrow> plugin (?ps1 ! j) \<noteq> Some a'" by simp
      with hf have "h' a' = ?h1 a'" by blast
      with ne show ?thesis by simp
    qed
    from run c1 c2 c3 c4 show ?thesis by blast
  qed
qed

lemma slot_holds_iff:
  "plugins e = Some ps \<Longrightarrow> slot_holds e i \<longleftrightarrow> i < length ps \<and> slot_ok ps (heap e) i"
  by (auto simp: slot_holds_def slot_ok_def split: option.splits)

lemma removePlugin_spec:
  assumes ta: "table_allocated e" and de: "dense_prefix e" and k: "k < curPluginCount e"
  shows "\<exists>e'. removePlugin k e = Inr (True, e') \<and>
           curPluginCount e' = curPluginCount e - 1 \<and>
           table_allocated e' \<and> dense_prefix e' \<and>
           (\<forall>i. k \<le> i \<and> i < curPluginCount e - 1 \<longrightarrow> slot_shifted e e' i)"
proof -
  from ta obtain ps where ps: "plugins e = Some ps" and len: "length ps = maxPluginNumber e"
    and cm: "curPluginCount e \<le> maxPluginNumber e" and mx: "maxPluginNumber e < 2 ^ 32"
    by (auto simp: table_allocated_def split: option.splits)
  let ?h = "heap e"
  let ?c = "curPluginCount e - 1"
  from de ps have ok: "slot_ok ps ?h i" if "i < curPluginCount e" for i
    using that by (simp add: dense_prefix_def slot_holds_iff)
  from ok [OF k] obtain ak pk where ak: "plugin (ps ! k) = Some ak" and pk: "?h ak = Some pk"
    and idk: "plugin_id pk = k"
    by (auto simp: slot_ok_def)
  let ?ps0 = "ps[k := (ps ! k)\<lparr>plugin := None\<rparr>]"
  have kl: "k < length ps" using k cm len by simp
  have cl: "?c < length ?ps0" using k cm len by simp
  have ok0: "\<forall>j. k < j \<and> j \<le> ?c \<longrightarrow> slot_ok ?ps0 ?h j"
  proof (intro allI impI)
    fix j assume j: "k < j \<and> j \<le> ?c"
    with k have "j < curPluginCount e" by arith
    from ok [OF this] j show "slot_ok ?ps0 ?h j" by (simp add: slot_ok_def)
  qed
  from doPluginRemove_loop_spec [OF cl ok0]
  obtain ps' h' where
    r: "doPluginRemove_loop k ?c ?ps0 ?h = Inr (ps', h')"
    and l: "length ps' = length ?ps0"
    and sh: "\<forall>j. k \<le> j \<and> j < ?c \<longrightarrow>
        (\<exists>a p. plugin (?ps0 ! (j + 1)) = Some a \<and> ?h a = Some p \<and>
               ps' ! j = \<lparr> plugin = Some a, insPeak = (0, 0), outsPeak = (0, 0) \<rparr> \<and>
               h' a = Some (p\<lparr>plugin_id := j\<rparr>))"
    and fr: "\<forall>j. j < k \<or> ?c \<le> j \<longrightarrow> ps' ! j = ?ps0 ! j"
    and hf: "\<forall>a. (\<forall>j. k < j \<and> j \<le> ?c \<longrightarrow> plugin (?ps0 ! j) \<noteq> Some a) \<longrightarrow> h' a = ?h a"
    by blast
  let ?e' = "e\<lparr> nextAction_pluginId := k, nextAction_opcode := EnginePostActionNull,
               curPluginCount := ?c, plugins := Some ps', heap := h'(ak := None) \<rparr>"
  from k have cnz: "curPluginCount e \<noteq> 0" by simp
  have run: "removePlugin k e = Inr (True, ?e')"
    using ps kl ak pk r cnz
    by (simp add: removePlugin_def proccessPendingEvents_def doPluginRemove_def)
  have c1: "curPluginCount ?e' = curPluginCount e - 1" by simp
  have c2: "table_allocated ?e'"
    using l len cm mx by (simp add: table_allocated_def)
  have low: "plugin (ps ! j) \<noteq> Some a" if a: "plugin (ps ! i) = Some a" and i: "i < curPluginCount e"
    and j: "j < curPluginCount e" and ne: "i \<noteq> j" for i j a
  proof
    assume "plugin (ps ! j) = Some a"
    with a ok [OF i] ok [OF j] ne show False by (auto simp: slot_ok_def)
  qed
  have c3: "dense_prefix ?e'"
    unfolding dense_prefix_def
  proof (intro allI impI)
    fix i assume "i < curPluginCount ?e'"
    then have i: "i < ?c" by simp
    with k have ic: "i < curPluginCount e" by arith
    have il: "i < length ps'" using i cl l by simp
    show "slot_holds ?e' i"
    proof (cases "i < k")
      case True
      with fr have "ps' ! i = ps ! i" by simp
      moreover from ok [OF ic] obtain a p where a: "plugin (ps ! i) = Some a" "?h a = Some p" "plugin_id p = i"
        by (auto simp: slot_ok_def)
      moreover have "h' a = ?h a"
      proof -
        have "\<forall>j. k < j \<and> j \<le> ?c \<longrightarrow> plugin (?ps0 ! j) \<noteq> Some a"
        proof (intro allI impI)
          fix j assume j: "k < j \<and> j \<le> ?c"
          with k have "j < curPluginCount e" by arith
          from low [OF a(1) ic this] True j show "plugin (?ps0 ! j) \<noteq> Some a" by simp
        qed
        with hf show ?thesis by blast
      qed
      moreover have "a \<noteq> ak" using low [OF a(1) ic k] True ak by auto
      ultimately show ?thesis using il
        by (simp add: slot_holds_def)
    next
      case False
      with i sh obtain a p where x: "plugin (?ps0 ! (i + 1)) = Some a" "?h a = Some p"
        "ps' ! i = \<lparr> plugin = Some a, insPeak = (0, 0), outsPeak = (0, 0) \<rparr>"
        "h' a = Some (p\<lparr>plugin_id := i\<rparr>)"
        by (metis not_less)
      from False x(1) have y: "plugin (ps ! (i + 1)) = Some a" by simp
      from i k have "i + 1 < curPluginCount e" by arith
      from low [OF y this k] False have "a \<noteq> ak" using ak by auto
      with x il show ?thesis by (simp add: slot_holds_def)
    qed
  qed
  have c4: "slot_shifted e ?e' i" if i: "k \<le> i \<and> i < curPluginCount e - 1" for i
  proof -
    from i sh obtain a p where x: "plugin (?ps0 ! (i + 1)) = Some a" "?h a = Some p"
        "ps' ! i = \<lparr> plugin = Some a, insPeak = (0, 0), outsPeak = (0, 0) \<rparr>"
        "h' a = Some (p\<lparr>plugin_id := i\<rparr>)"
      by blast
    from i x(1) have y: "plugin (ps ! (i + 1)) = Some a" by simp
    from i k have ic: "i + 1 < curPluginCount e" by arith
    from low [OF y ic k] i have "a \<noteq> ak" using ak by auto
    moreover from ic cm len have "i + 1 < length ps" by simp
    moreover from this l have "i < length ps'" by simp
    ultimately show ?thesis using ps x y
      by (simp add: slot_shifted_def)
  qed
  from run c1 c2 c3 c4 show ?thesis by blast
qed

lemma addPlugin_spec:
  assumes ta: "table_allocated e" and de: "dense_prefix e"
    and ok: "op_ok (AddPlugin btype ptype newPlugin) e"
  shows "\<exists>e'. apply_op cfg (AddPlugin btype ptype newPlugin) e = Inr e' \<and>
           table_allocated e' \<and> dense_prefix e'"
proof -
  from ta obtain ps where ps: "plugins e = Some ps" and len: "length ps = maxPluginNumber e"
    and cm: "curPluginCount e \<le> maxPluginNumber e" and mx: "maxPluginNumber e < 2 ^ 32"
    by (auto simp: table_allocated_def split: option.splits)
  have same: "table_allocated (setLastError s e) \<and> dense_prefix (setLastError s e)" for s
    using ta de
    by (simp add: table_allocated_def dense_prefix_def slot_holds_def setLastError_def
             cong: option.case_cong)
  show ?thesis
  proof (cases "curPluginCount e = maxPluginNumber e")
    case True
    then show ?thesis using same by (simp add: addPlugin_def)
  next
    case nf: False
    show ?thesis
    proof (cases "preferPluginBridges (fOptions e) \<and> bridgeBinaryFor cfg (fOptions e) btype \<noteq> None")
      case True
      then show ?thesis using nf same by (auto simp: addPlugin_def Let_def)
    next
      case nb: False
      show ?thesis
      proof (cases "case ptype of PLUGIN_NONE \<Rightarrow> None | _ \<Rightarrow> newPlugin ptype (curPluginCount e)")
        case None
        then show ?thesis using nf nb ta de by (auto simp: addPlugin_def Let_def)
      next
        case (Some ap)
        obtain a p where ap: "ap = (a, p)" by (cases ap)
        from Some ap have np: "newPlugin ptype (curPluginCount e) = Some (a, p)"
          by (cases ptype) auto
        with ok have fresh: "heap e a = None" and pid: "plugin_id p = curPluginCount e" by auto
        let ?n = "curPluginCount e"
        let ?e' = "e\<lparr> plugins := Some (ps[?n := \<lparr> plugin = Some a, insPeak = (0, 0),
                                                              outsPeak = (0, 0) \<rparr>]),
                                 curPluginCount := (?n + 1) mod 2 ^ 32,
                                 heap := (heap e)(a \<mapsto> p) \<rparr>"
        from nf cm have lt: "?n < maxPluginNumber e" by simp
        with mx have md: "(?n + 1) mod 2 ^ 32 = ?n + 1" by simp
        have run: "apply_op cfg (AddPlugin btype ptype newPlugin) e = Inr ?e'"
          using nf nb Some ap ps lt len by (auto simp: addPlugin_def Let_def)
        have t: "table_allocated ?e'"
          using len lt mx md by (simp add: table_allocated_def)
        have d: "dense_prefix ?e'"
          unfolding dense_prefix_def
        proof (intro allI impI)
          fix i assume "i < curPluginCount ?e'"
          with md have i: "i < ?n + 1" by simp
          show "slot_holds ?e' i"
          proof (cases "i = ?n")
            case True
            then show ?thesis using lt len pid by (simp add: slot_holds_def)
          next
            case False
            with i have "i < ?n" by simp
            with de have "slot_holds e i" by (simp add: dense_prefix_def)
            with ps obtain b q where "i < length ps" "plugin (ps ! i) = Some b" "heap e b = Some q" "plugin_id q = i"
              by (auto simp: slot_holds_def split: option.splits)
            moreover from this fresh have "b \<noteq> a" by auto
            ultimately show ?thesis using False by (simp add: slot_holds_def)
          qed
        qed
        from run t d show ?thesis by blast
      qed
    qed
  qed
qed

lemma apply_op_spec:
  assumes "table_allocated e" "dense_prefix e" "op_ok x e"
  shows "\<exists>e'. apply_op cfg x e = Inr e' \<and> table_allocated e' \<and> dense_prefix e'"
proof (cases x)
  case (AddPlugin btype ptype newPlugin)
  with assms addPlugin_spec show ?thesis by blast
next
  case (RemovePlugin k)
  with assms have "k < curPluginCount e" by simp
  from removePlugin_spec [OF assms(1) assms(2) this] RemovePlugin show ?thesis
    by auto
qed

lemma run_ops_spec:
  "table_allocated e \<Longrightarrow> dense_prefix e \<Longrightarrow> ops_ok cfg ops e \<Longrightarrow>
   \<exists>e'. run_ops cfg ops e = Inr e' \<and> table_allocated e' \<and> dense_prefix e'"
proof (induction ops arbitrary: e)
  case Nil
  then show ?case by simp
next
  case (Cons x xs)
  from Cons.prems have okx: "op_ok x e" by simp
  from apply_op_spec [OF Cons.prems(1) Cons.prems(2) okx, of cfg]
  obtain e1 where e1: "apply_op cfg x e = Inr e1" "table_allocated e1" "dense_prefix e1" by blast
  with Cons.prems have "ops_ok cfg xs e1" by simp
  from Cons.IH [OF e1(2) e1(3) this] e1(1) show ?case by simp
qed

lemma ops_ok_take: "ops_ok cfg ops e \<Longrightarrow> ops_ok cfg (take n ops) e"
proof (induction ops arbitrary: e n)
  case Nil
  then show ?case by simp
next
  case (Cons x xs)
  show ?case
  proof (cases n)
    case 0
    then show ?thesis by simp
  next
    case (Suc m)
    with Cons show ?thesis by (auto split: sum.splits)
  qed
qed

text \<open>
  Within the callers' contract the table stays dense. From an allocated table with a dense
  prefix, along every sequence of additions and removals in which each \<^verbatim>\<open>removePlugin(k)\<close>
  has \<open>k\<close> below the current count and each constructor returns a new object with the id
  it was given, every operation returns (none runs into undefined behaviour) and leaves
  each slot below \<^verbatim>\<open>curPluginCount\<close> pointing to a live plugin whose id is the slot index.
  Such a \<^verbatim>\<open>removePlugin(k)\<close> returns \<^verbatim>\<open>true\<close>, the count is one less, and every slot \<open>i\<close>
  from \<open>k\<close> up to the old count minus two holds the plugin that was in slot \<open>i + 1\<close>,
  with its id set to \<open>i\<close> and its peaks cleared.
\<close>

theorem plugin_table_dense_in_contract:
  "(table_allocated e \<and> dense_prefix e \<and> ops_ok cfg ops e \<longrightarrow>
      (\<forall>n \<le> length ops. \<exists>e'. run_ops cfg (take n ops) e = Inr e' \<and> dense_prefix e'))
   \<and> (table_allocated e \<and> dense_prefix e \<and> k < curPluginCount e \<longrightarrow>
      (\<exists>e'. removePlugin k e = Inr (True, e') \<and>
            curPluginCount e' = curPluginCount e - 1 \<and>
            (\<forall>i. k \<le> i \<and> i < curPluginCount e - 1 \<longrightarrow> slot_shifted e e' i)))"
proof (intro conjI impI allI)
  fix n
  assume a: "table_allocated e \<and> dense_prefix e \<and> ops_ok cfg ops e"
  then have "ops_ok cfg (take n ops) e" using ops_ok_take by blast
  with a run_ops_spec [of e cfg "take n ops"]
  show "\<exists>e'. run_ops cfg (take n ops) e = Inr e' \<and> dense_prefix e'" by blast
next
  assume a: "table_allocated e \<and> dense_prefix e \<and> k < curPluginCount e"
  with removePlugin_spec [of e k]
  show "\<exists>e'. removePlugin k e = Inr (True, e') \<and>
            curPluginCount e' = curPluginCount e - 1 \<and>
            (\<forall>i. k \<le> i \<and> i < curPluginCount e - 1 \<longrightarrow> slot_shifted e e' i)"
    by blast
qed

lemma list_update_Cons_numeral:
  "(x # xs)[numeral v := y] = x # xs[numeral v - 1 := y]"
  by (simp add: numeral_eq_Suc)

lemmas table_eval =
  addPlugin_def removePlugin_def proccessPendingEvents_def doPluginRemove_def
  doPluginRemove_loop.simps bridgeBinaryFor_def exampleEngine_def exampleOptions_def
  exampleConfig_def exampleLoader_def add_example_def setLastError_def emptyPluginData_def
  list_update_Cons_numeral slot_holds_def dense_prefix_def table_allocated_def

text \<open>
  Claim C1, evaluated where it fails: after every operation each slot below
  \<^verbatim>\<open>curPluginCount\<close> should hold a plugin whose id is the slot index.
  \<^verbatim>\<open>doPluginRemove\<close> leaves the pointer of the last moved plugin in the slot it moved out
  of. On a table of three slots, after three additions, two removals of slot 0 and one more
  addition the table is \<open>[c, d, c]\<close> with count 2. \<^verbatim>\<open>removePlugin(2)\<close> then finds a pointer
  in slot 2, returns \<^verbatim>\<open>true\<close>, lowers the count to 1 and deletes \<open>c\<close>, the plugin of slot 0:
  slot 0 no longer holds a plugin. On a table whose slot 2 was never used the same call
  returns \<^verbatim>\<open>false\<close> ("Could not find plugin to remove").
\<close>

theorem removePlugin_stale_slot_deletes_live_plugin:
  "map_sum id (\<lambda>e'. (curPluginCount e', slot_holds e' 0))
     (run_ops exampleConfig
        [add_example 1 ''a'', add_example 2 ''b'', add_example 3 ''c'',
         RemovePlugin 0, RemovePlugin 0, add_example 4 ''d'', RemovePlugin 2]
        exampleEngine)
   = Inr (1, False)
   \<and> map_sum id (\<lambda>e'. map_sum id fst (removePlugin 2 e'))
     (run_ops exampleConfig
        [add_example 1 ''a'', add_example 2 ''b'', add_example 3 ''c'',
         RemovePlugin 0, RemovePlugin 0, add_example 4 ''d'']
        exampleEngine)
   = Inr (Inr True)
   \<and> map_sum id (\<lambda>e'. map_sum id fst (removePlugin 2 e'))
     (run_ops exampleConfig [add_example 1 ''a'', add_example 2 ''b''] exampleEngine)
   = Inr (Inr False)"
  by (simp add: table_eval)

theorem plugin_table_dense_in_contract_example:
  "(\<exists>e'. run_ops exampleConfig [add_example 1 ''a'', add_example 2 ''b'', RemovePlugin 0]
            exampleEngine = Inr e' \<and> dense_prefix e')
   \<and> (\<exists>e'. removePlugin 0 (engine_with_names [''a'', ''b'', ''c'']) = Inr (True, e') \<and>
            curPluginCount e' = 2 \<and>
            slot_shifted (engine_with_names [''a'', ''b'', ''c'']) e' 0 \<and>
            slot_shifted (engine_with_names [''a'', ''b'', ''c'']) e' 1)"
proof -
  let ?ops = "[add_example 1 ''a'', add_example 2 ''b'', RemovePlugin 0]"
  let ?e2 = "engine_with_names [''a'', ''b'', ''c'']"
  have h1: "table_allocated exampleEngine \<and> dense_prefix exampleEngine \<and>
            ops_ok exampleConfig ?ops exampleEngine"
    by (simp add: table_eval)
  have h2: "table_allocated ?e2 \<and> dense_prefix ?e2 \<and> 0 < curPluginCount ?e2"
    by (simp add: table_eval engine_with_names_def less_Suc_eq numeral_3_eq_3)
  have c2: "curPluginCount ?e2 - 1 = 2"
    by (simp add: engine_with_names_def)
  from plugin_table_dense_in_contract [of exampleEngine exampleConfig ?ops 0] h1
  have "\<exists>e'. run_ops exampleConfig (take 3 ?ops) exampleEngine = Inr e' \<and> dense_prefix e'"
    by (metis length_Cons list.size(3) numeral_3_eq_3 order_refl)
  moreover
  from plugin_table_dense_in_contract [of ?e2 exampleConfig "[]" 0] h2 c2
  have "\<exists>e'. removePlugin 0 ?e2 = Inr (True, e') \<and> curPluginCount e' = 2 \<and>
            (\<forall>i. 0 \<le> i \<and> i < 2 \<longrightarrow> slot_shifted ?e2 e' i)"
    by simp
  ultimately show ?thesis by auto
qed

section \<open>The rack: proofs\<close>

declare processRack_loop.simps [simp del]

lemma processRack_loop_spec:
  "count \<le> length ps \<Longrightarrow> (\<forall>j. i \<le> j \<and> j < count \<longrightarrow> slot_ok ps h j) \<Longrightarrow>
   processRack_loop (Some ps) h count i processed calls =
     Inr (processed \<or> (\<exists>j a p. i \<le> j \<and> j < count \<and> plugin (ps ! j) = Some a \<and>
                                h a = Some p \<and> plugin_enabled p), calls)"
proof (induction "count - i" arbitrary: i processed)
  case 0
  then have "\<not> i < count" by simp
  moreover from this have "\<And>j. i \<le> j \<and> j < count \<Longrightarrow> False" by arith
  ultimately show ?case
    by (subst processRack_loop.simps) auto
next
  case (Suc n)
  then have ic: "i < count" and il: "i < length ps" by simp_all
  from Suc.prems(2) ic have "slot_ok ps h i" by simp
  then obtain a p where a: "plugin (ps ! i) = Some a" and p: "h a = Some p"
    by (auto simp: slot_ok_def)
  have n: "n = count - (i + 1)" using Suc.hyps(2) by simp
  have rest: "\<forall>j. i + 1 \<le> j \<and> j < count \<longrightarrow> slot_ok ps h j" using Suc.prems(2) by simp
  note IH = Suc.hyps(1) [OF n Suc.prems(1) rest]
  have split: "(\<exists>j a' p'. i \<le> j \<and> j < count \<and> plugin (ps ! j) = Some a' \<and>
                  h a' = Some p' \<and> plugin_enabled p')
             \<longleftrightarrow> plugin_enabled p \<or>
                 (\<exists>j a' p'. i + 1 \<le> j \<and> j < count \<and> plugin (ps ! j) = Some a' \<and>
                  h a' = Some p' \<and> plugin_enabled p')"
    (is "?L \<longleftrightarrow> ?R")
  proof
    assume ?L
    then obtain j a' p' where j: "i \<le> j" "j < count" "plugin (ps ! j) = Some a'"
      "h a' = Some p'" "plugin_enabled p'" by blast
    show ?R
    proof (cases "j = i")
      case True
      with j a p show ?thesis by simp
    next
      case False
      with j have "i + 1 \<le> j" by simp
      with j show ?thesis by blast
    qed
  next
    assume ?R
    then show ?L
    proof
      assume "plugin_enabled p"
      with a p ic show ?L by blast
    next
      assume "\<exists>j a' p'. i + 1 \<le> j \<and> j < count \<and> plugin (ps ! j) = Some a' \<and>
                  h a' = Some p' \<and> plugin_enabled p'"
      then obtain j a' p' where "i + 1 \<le> j" "j < count" "plugin (ps ! j) = Some a'"
        "h a' = Some p'" "plugin_enabled p'" by blast
      moreover from this have "i \<le> j" by simp
      ultimately show ?L by blast
    qed
  qed
  show ?case
  proof (cases "plugin_enabled p")
    case True
    have "processRack_loop (Some ps) h count i processed calls
          = processRack_loop (Some ps) h count (i + 1) True calls"
      using ic il a p True by (subst processRack_loop.simps) simp
    with IH [of True] split True show ?thesis by simp
  next
    case False
    have "processRack_loop (Some ps) h count i processed calls
          = processRack_loop (Some ps) h count (i + 1) processed calls"
      using ic il a p False by (subst processRack_loop.simps) simp
    with IH [of processed] split False show ?thesis by simp
  qed
qed

lemma ball_take_nth:
  assumes "n \<le> length xs"
  shows "(\<forall>x \<in> set (take n xs). P x) \<longleftrightarrow> (\<forall>j < n. P (xs ! j))"
proof
  assume l: "\<forall>x \<in> set (take n xs). P x"
  show "\<forall>j < n. P (xs ! j)"
  proof (intro allI impI)
    fix j assume j: "j < n"
    with assms have "take n xs ! j \<in> set (take n xs)" by (intro nth_mem) simp
    with l j show "P (xs ! j)" by simp
  qed
next
  assume r: "\<forall>j < n. P (xs ! j)"
  show "\<forall>x \<in> set (take n xs). P x"
  proof
    fix x assume "x \<in> set (take n xs)"
    then obtain j where "j < length (take n xs)" "take n xs ! j = x"
      by (auto simp: in_set_conv_nth)
    with r show "P x" by auto
  qed
qed

lemma enabled_plugins_empty_iff:
  assumes ps: "plugins e = Some ps" and cl: "curPluginCount e \<le> length ps"
  shows "enabled_plugins e = [] \<longleftrightarrow>
         \<not> (\<exists>j a p. j < curPluginCount e \<and> plugin (ps ! j) = Some a \<and>
                     heap e a = Some p \<and> plugin_enabled p)"
proof -
  let ?f = "\<lambda>s. case plugin s of
                    None \<Rightarrow> []
                  | Some a \<Rightarrow> (case heap e a of
                                 None \<Rightarrow> []
                               | Some p \<Rightarrow> if plugin_enabled p then [a] else [])"
  have "enabled_plugins e = [] \<longleftrightarrow> (\<forall>s \<in> set (take (curPluginCount e) ps). ?f s = [])"
    using ps by (simp add: enabled_plugins_def)
  also have "\<dots> \<longleftrightarrow> (\<forall>j < curPluginCount e. ?f (ps ! j) = [])"
    by (rule ball_take_nth [OF cl])
  also have "\<dots> \<longleftrightarrow> \<not> (\<exists>j a p. j < curPluginCount e \<and> plugin (ps ! j) = Some a \<and>
                     heap e a = Some p \<and> plugin_enabled p)"
    by (auto split: option.splits if_splits)
  finally show ?thesis .
qed

text \<open>
  What the compiled \<^verbatim>\<open>processRack\<close> computes. On an allocated table with a dense prefix
  and buffers of at least \<open>frames\<close> samples it returns with an empty list of calls, and
  leaves in the first \<open>frames\<close> samples of each output the input when no plugin below
  \<^verbatim>\<open>curPluginCount\<close> is enabled and zeros otherwise.
\<close>

theorem processRack_result:
  assumes ta: "table_allocated e" and de: "dense_prefix e"
    and fo: "frames \<le> length out0" "frames \<le> length out1"
    and fi: "frames \<le> length inBuf0" "frames \<le> length inBuf1"
  shows "processRack e inBuf0 inBuf1 out0 out1 frames =
           Inr \<lparr> outBuf0 = (if enabled_plugins e = [] then take frames inBuf0
                            else replicate frames 0) @ drop frames out0,
                 outBuf1 = (if enabled_plugins e = [] then take frames inBuf1
                            else replicate frames 0) @ drop frames out1,
                 processCalls = [] \<rparr>"
proof -
  from ta obtain ps where ps: "plugins e = Some ps" and len: "length ps = maxPluginNumber e"
    and cm: "curPluginCount e \<le> maxPluginNumber e"
    by (auto simp: table_allocated_def split: option.splits)
  from cm len have cl: "curPluginCount e \<le> length ps" by simp
  from de ps have ok: "\<forall>j. 0 \<le> j \<and> j < curPluginCount e \<longrightarrow> slot_ok ps (heap e) j"
    by (simp add: dense_prefix_def slot_holds_iff)
  have loop: "processRack_loop (plugins e) (heap e) (curPluginCount e) 0 False []
              = Inr (enabled_plugins e \<noteq> [], [])"
    using processRack_loop_spec [OF cl ok, of False "[]"] enabled_plugins_empty_iff [OF ps cl] ps
    by simp
  show ?thesis
    using fo fi loop
    by (simp add: processRack_def carla_zeroFloat_def memcpy_float_def)
qed

lemmas rack_eval =
  processRack_def carla_zeroFloat_def memcpy_float_def processRack_loop.simps
  engine_with_names_def exampleEngine_def enabled_plugins_def

theorem processRack_result_example:
  "processRack (engine_with_names [''a'', ''b'']) [1, 2] [3, 4] [5, 6] [7, 8] 2
     = Inr \<lparr> outBuf0 = [0, 0], outBuf1 = [0, 0], processCalls = [] \<rparr>
   \<and> processRack exampleEngine [1, 2] [3, 4] [5, 6] [7, 8] 2
     = Inr \<lparr> outBuf0 = [1, 2], outBuf1 = [3, 4], processCalls = [] \<rparr>"
proof -
  have h1: "table_allocated (engine_with_names [''a'', ''b'']) \<and>
            dense_prefix (engine_with_names [''a'', ''b''])"
    by (simp add: table_allocated_def dense_prefix_def slot_holds_def engine_with_names_def
        exampleEngine_def less_Suc_eq)
  have h2: "table_allocated exampleEngine \<and> dense_prefix exampleEngine"
    by (simp add: table_allocated_def dense_prefix_def exampleEngine_def)
  have e1: "enabled_plugins (engine_with_names [''a'', ''b'']) = [0, 1]"
    by (simp add: enabled_plugins_def engine_with_names_def exampleEngine_def numeral_2_eq_2)
  have e2: "enabled_plugins exampleEngine = []"
    by (simp add: enabled_plugins_def exampleEngine_def)
  from processRack_result [of "engine_with_names [''a'', ''b'']" 2 "[5, 6]" "[7, 8]" "[1, 2]" "[3, 4]"]
       processRack_result [of exampleEngine 2 "[5, 6]" "[7, 8]" "[1, 2]" "[3, 4]"]
       h1 h2 e1 e2
  show ?thesis by (simp add: numeral_2_eq_2)
qed

text \<open>
  Claim C4, evaluated where it fails: a block should call \<^verbatim>\<open>process\<close> once on each enabled
  plugin, in ascending order. With one enabled plugin in the table (the object at address
  0) the block makes no call of \<^verbatim>\<open>process\<close>, and the outputs stay zero.
\<close>

theorem processRack_never_calls_process:
  "processRack (engine_with_names [''a'']) [1] [1] [5] [5] 1
     = Inr \<lparr> outBuf0 = [0], outBuf1 = [0], processCalls = [] \<rparr>
   \<and> enabled_plugins (engine_with_names [''a'']) = [0]"
  by (simp add: rack_eval)

section \<open>Unique plugin names: proofs\<close>

declare getNewUniquePluginName_loop.simps [simp del]

lemma getNewUniquePluginName_loop_unused:
  "count \<le> length ps \<Longrightarrow> count \<le> 65535 \<Longrightarrow>
   (\<forall>j. i \<le> j \<and> j < count \<longrightarrow>
      (\<exists>a p n. plugin (ps ! j) = Some a \<and> h a = Some p \<and> plugin_name p = Some n \<and> n \<noteq> sname)) \<Longrightarrow>
   getNewUniquePluginName_loop ps h count i sname = Inr sname"
proof (induction "count - i" arbitrary: i)
  case 0
  then show ?case by (subst getNewUniquePluginName_loop.simps) simp
next
  case (Suc m)
  then have ic: "i < count" and il: "i < length ps" and iw: "\<not> i \<ge> 65535" by simp_all
  from Suc.prems(3) ic obtain a p n where x: "plugin (ps ! i) = Some a" "h a = Some p"
    "plugin_name p = Some n" "n \<noteq> sname" by blast
  have m: "m = count - (i + 1)" using Suc.hyps(2) by simp
  have rest: "\<forall>j. i + 1 \<le> j \<and> j < count \<longrightarrow>
      (\<exists>a p n. plugin (ps ! j) = Some a \<and> h a = Some p \<and> plugin_name p = Some n \<and> n \<noteq> sname)"
    using Suc.prems(3) by simp
  have "getNewUniquePluginName_loop ps h count i sname
        = getNewUniquePluginName_loop ps h count (i + 1) sname"
    using ic il iw x by (subst getNewUniquePluginName_loop.simps) simp
  with Suc.hyps(1) [OF m Suc.prems(1) Suc.prems(2) rest] show ?case by simp
qed

lemma existing_names_nth:
  assumes ps: "plugins e = Some ps" and cl: "curPluginCount e \<le> length ps"
    and j: "j < curPluginCount e" and a: "plugin (ps ! j) = Some a" and p: "heap e a = Some p"
  shows "plugin_name p \<in> set (existing_names e)"
proof -
  from cl j have "take (curPluginCount e) ps ! j \<in> set (take (curPluginCount e) ps)"
    by (intro nth_mem) simp
  with j have "ps ! j \<in> set (take (curPluginCount e) ps)" by simp
  with a p ps show ?thesis
    by (force simp: existing_names_def)
qed

lemma getNewUniquePluginName_unused:
  assumes ta: "table_allocated e" and de: "dense_prefix e"
    and cnt: "curPluginCount e \<le> 65535"
    and ne: "name \<noteq> []" and ln: "length name \<le> name_limit STR_MAX"
    and colon: "CHR '':'' \<notin> set name"
    and unused: "Some name \<notin> set (existing_names e)"
    and named: "None \<notin> set (existing_names e)"
  shows "getNewUniquePluginName STR_MAX e name = Inr name"
proof -
  from ta obtain ps where ps: "plugins e = Some ps" and len: "length ps = maxPluginNumber e"
    and cm: "curPluginCount e \<le> maxPluginNumber e"
    by (auto simp: table_allocated_def split: option.splits)
  from cm len have cl: "curPluginCount e \<le> length ps" by simp
  have s: "CarlaString_replace CHR '':'' CHR ''.'' (CarlaString_truncate (name_limit STR_MAX) name) = name"
  proof -
    have "map (\<lambda>c. if c = CHR '':'' then CHR ''.'' else c) name = name"
      using colon by (intro map_idI) auto
    with ln show ?thesis by (simp add: CarlaString_replace_def CarlaString_truncate_def)
  qed
  have all: "\<forall>j. 0 \<le> j \<and> j < curPluginCount e \<longrightarrow>
      (\<exists>a p n. plugin (ps ! j) = Some a \<and> heap e a = Some p \<and> plugin_name p = Some n \<and> n \<noteq> name)"
  proof (intro allI impI)
    fix j assume "0 \<le> j \<and> j < curPluginCount e"
    then have j: "j < curPluginCount e" by simp
    with de ps obtain a p where a: "plugin (ps ! j) = Some a" and p: "heap e a = Some p"
      by (auto simp: dense_prefix_def slot_holds_iff slot_ok_def)
    have mem: "plugin_name p \<in> set (existing_names e)"
      by (rule existing_names_nth [OF ps cl j a p])
    with named have "plugin_name p \<noteq> None" by metis
    then obtain n where n: "plugin_name p = Some n" by blast
    with mem unused have "n \<noteq> name" by metis
    note n = n this
    with a p show "\<exists>a p n. plugin (ps ! j) = Some a \<and> heap e a = Some p \<and>
                     plugin_name p = Some n \<and> n \<noteq> name" by blast
  qed
  from getNewUniquePluginName_loop_unused [OF cl cnt all] ps ne s
  show ?thesis by (simp add: getNewUniquePluginName_def)
qed

lemma succ_char_digits:
  "succ_char CHR ''0'' = CHR ''1''" "succ_char CHR ''1'' = CHR ''2''"
  "succ_char CHR ''2'' = CHR ''3''" "succ_char CHR ''3'' = CHR ''4''"
  "succ_char CHR ''4'' = CHR ''5''" "succ_char CHR ''5'' = CHR ''6''"
  "succ_char CHR ''6'' = CHR ''7''" "succ_char CHR ''7'' = CHR ''8''"
  "succ_char CHR ''8'' = CHR ''9''"
  unfolding succ_char_def by code_simp+

lemma bumpName_synth:
  "bumpName ''synth'' = Inr ''synth (2)''"
  "bumpName ''synth (2)'' = Inr ''synth (3)''"
  "bumpName ''synth (3)'' = Inr ''synth (4)''"
  "bumpName ''synth (4)'' = Inr ''synth (5)''"
  "bumpName ''synth (5)'' = Inr ''synth (6)''"
  "bumpName ''synth (6)'' = Inr ''synth (7)''"
  "bumpName ''synth (7)'' = Inr ''synth (8)''"
  "bumpName ''synth (8)'' = Inr ''synth (9)''"
  "bumpName ''synth (9)'' = Inr ''synth (10)''"
  by (simp_all add: bumpName_def CarlaString_isDigit_def CarlaString_truncate_def succ_char_digits)

lemmas name_eval =
  getNewUniquePluginName_def CarlaString_truncate_def CarlaString_replace_def
  getNewUniquePluginName_loop.simps bumpName_synth engine_with_names_def exampleEngine_def
  synth_names_def

lemma synth_chain:
  assumes "5 \<le> name_limit STR_MAX"
  shows "getNewUniquePluginName STR_MAX (engine_with_names (take 2 synth_names)) ''synth'' = Inr ''synth (3)''"
    and "getNewUniquePluginName STR_MAX (engine_with_names (take 3 synth_names)) ''synth'' = Inr ''synth (4)''"
    and "getNewUniquePluginName STR_MAX (engine_with_names (take 4 synth_names)) ''synth'' = Inr ''synth (5)''"
    and "getNewUniquePluginName STR_MAX (engine_with_names (take 5 synth_names)) ''synth'' = Inr ''synth (6)''"
    and "getNewUniquePluginName STR_MAX (engine_with_names (take 6 synth_names)) ''synth'' = Inr ''synth (7)''"
    and "getNewUniquePluginName STR_MAX (engine_with_names (take 7 synth_names)) ''synth'' = Inr ''synth (8)''"
    and "getNewUniquePluginName STR_MAX (engine_with_names (take 8 synth_names)) ''synth'' = Inr ''synth (9)''"
    and "getNewUniquePluginName STR_MAX (engine_with_names (take 9 synth_names)) ''synth'' = Inr ''synth (10)''"
  using assms by (simp_all add: name_eval)

text \<open>
  Claim C5, evaluated where it fails: the name returned should differ from the name of
  every plugin. The loop passes over the plugins once. With the plugins \<open>synth (2)\<close> and
  \<open>synth\<close> in this order, the name \<open>synth\<close> passes slot 0, collides in slot 1 and comes
  back as \<open>synth (2)\<close>, the name of slot 0. The engine reaches this table by adding
  \<open>synth\<close> and \<open>synth (2)\<close>, removing slot 0 and adding \<open>synth\<close> again. (\<^verbatim>\<open>STR_MAX\<close> is
  taken as 255; any value that leaves room for five characters gives the same.)
\<close>

theorem getNewUniquePluginName_returns_existing_name:
  "getNewUniquePluginName 255 (engine_with_names [''synth (2)'', ''synth'']) ''synth''
     = Inr ''synth (2)''
   \<and> existing_names (engine_with_names [''synth (2)'', ''synth''])
     = [Some ''synth (2)'', Some ''synth'']
   \<and> map_sum id (\<lambda>e'. (getNewUniquePluginName 255 e' ''synth'', existing_names e'))
     (run_ops exampleConfig
        [add_example 1 ''synth'', add_example 2 ''synth (2)'', RemovePlugin 0,
         add_example 3 ''synth'']
        exampleEngine)
   = Inr (Inr ''synth (2)'', [Some ''synth (2)'', Some ''synth''])"
  by (simp add: table_eval name_eval existing_names_def name_limit_def maxClientNameSize_def)

text \<open>
  What does hold of \<^verbatim>\<open>getNewUniquePluginName\<close>. On an allocated table with a dense prefix
  of at most 65535 plugins, a name that is not empty, not longer than \<open>name_limit\<close>,
  without a colon and different from the name of every plugin (each plugin having a name)
  comes back unchanged. When \<open>name_limit\<close> is at least 5, with the plugins \<open>synth\<close> and
  \<open>synth (2)\<close>, in this order, \<open>synth\<close> becomes \<open>synth (3)\<close>; with each result added as
  the next plugin the following calls give \<open>synth (4)\<close> up to \<open>synth (10)\<close>.
\<close>

theorem getNewUniquePluginName_unused_and_synth:
  "(table_allocated e \<and> dense_prefix e \<and> curPluginCount e \<le> 65535 \<and>
    name \<noteq> [] \<and> length name \<le> name_limit STR_MAX \<and> CHR '':'' \<notin> set name \<and>
    Some name \<notin> set (existing_names e) \<and> None \<notin> set (existing_names e)
      \<longrightarrow> getNewUniquePluginName STR_MAX e name = Inr name)
   \<and> (5 \<le> name_limit STR_MAX \<longrightarrow>
        getNewUniquePluginName STR_MAX (engine_with_names (take 2 synth_names)) ''synth'' = Inr ''synth (3)'' \<and>
        getNewUniquePluginName STR_MAX (engine_with_names (take 3 synth_names)) ''synth'' = Inr ''synth (4)'' \<and>
        getNewUniquePluginName STR_MAX (engine_with_names (take 4 synth_names)) ''synth'' = Inr ''synth (5)'' \<and>
        getNewUniquePluginName STR_MAX (engine_with_names (take 5 synth_names)) ''synth'' = Inr ''synth (6)'' \<and>
        getNewUniquePluginName STR_MAX (engine_with_names (take 6 synth_names)) ''synth'' = Inr ''synth (7)'' \<and>
        getNewUniquePluginName STR_MAX (engine_with_names (take 7 synth_names)) ''synth'' = Inr ''synth (8)'' \<and>
        getNewUniquePluginName STR_MAX (engine_with_names (take 8 synth_names)) ''synth'' = Inr ''synth (9)'' \<and>
        getNewUniquePluginName STR_MAX (engine_with_names (take 9 synth_names)) ''synth'' = Inr ''synth (10)'')"
  using getNewUniquePluginName_unused [of e name STR_MAX] synth_chain [of STR_MAX]
  by blast

theorem getNewUniquePluginName_unused_and_synth_example:
  "getNewUniquePluginName 255 (engine_with_names [''bass'', ''drums'']) ''synth'' = Inr ''synth''
   \<and> getNewUniquePluginName 255 (engine_with_names [''synth'', ''synth (2)'']) ''synth'' = Inr ''synth (3)''"
proof -
  let ?e = "engine_with_names [''bass'', ''drums'']"
  have l: "name_limit 255 = 121"
    by (simp add: name_limit_def maxClientNameSize_def)
  have h: "table_allocated ?e \<and> dense_prefix ?e \<and> curPluginCount ?e \<le> 65535 \<and>
    ''synth'' \<noteq> [] \<and> length ''synth'' \<le> name_limit 255 \<and> CHR '':'' \<notin> set ''synth'' \<and>
    Some ''synth'' \<notin> set (existing_names ?e) \<and> None \<notin> set (existing_names ?e)"
    by (simp add: l table_allocated_def dense_prefix_def slot_holds_def existing_names_def
        engine_with_names_def exampleEngine_def less_Suc_eq)
  have t: "take 2 synth_names = [''synth'', ''synth (2)'']"
    by (simp add: synth_names_def)
  from getNewUniquePluginName_unused_and_synth [of ?e "''synth''" 255] h l t
  show ?thesis by simp
qed

end
